theory Spec2Isabelle
  imports Main
begin

section \<open>JavaScript strings and numbers, as far as the linters need them\<close>

text \<open>
  Strings are \<^typ>\<open>string\<close>; the line terminators are the characters LF and CR.
\<close>

definition LF :: char where "LF = CHR 0x0A"
definition CR :: char where "CR = CHR 0x0D"

text \<open>\<^verbatim>\<open>str.split(/\r?\n/g)\<close>: the pieces between the matches of an optional CR followed by LF.\<close>

fun split_lines :: "string \<Rightarrow> string list" where
  "split_lines [] = [[]]"
| "split_lines (c # cs) =
     (if c = LF then [] # split_lines cs
      else if c = CR \<and> take 1 cs = [LF] then [] # split_lines (drop 1 cs)
      else (case split_lines cs of [] \<Rightarrow> [[c]] | l # ls \<Rightarrow> (c # l) # ls))"

definition is_space :: "char \<Rightarrow> bool" where
  "is_space c = (c \<in> set [CHR '' '', CHR 0x09, CHR 0x0A, CHR 0x0B, CHR 0x0C, CHR 0x0D])"

definition trim :: "string \<Rightarrow> string" where
  "trim s = rev (dropWhile is_space (rev (dropWhile is_space s)))"

text \<open>
  Modelled from the spec: \<^verbatim>\<open>splitLines\<close> of \<^verbatim>\<open>../common\<close>, which is not among the sources.
  The text is split on line boundaries; trimming each line and discarding the empty lines are
  the caller's options \<^verbatim>\<open>trim\<close> and \<^verbatim>\<open>removeEmptyEntries\<close>. Both call sites pass
  \<^verbatim>\<open>false\<close> for both. The line boundary is the one the sources use themselves
  (\<^verbatim>\<open>/\r?\n/g\<close> in \<^verbatim>\<open>refactor.ts\<close>).
\<close>

definition splitLines :: "string \<Rightarrow> bool \<Rightarrow> bool \<Rightarrow> string list" where
  "splitLines str trim_opt removeEmptyEntries =
     (let lines1 = split_lines str;
          lines2 = (if trim_opt then map trim lines1 else lines1)
      in if removeEmptyEntries then filter (\<lambda>line. length line > 0) lines2 else lines2)"

text \<open>
  A JavaScript number is NaN or an integer here. \<^verbatim>\<open>Number(x)\<close> is modelled on
  \<^verbatim>\<open>undefined\<close>, on blank strings and on decimal integers with an optional sign, where the
  result is exact below \<open>2^53\<close>. The other numeric forms (fraction, exponent, radix prefix,
  \<^verbatim>\<open>Infinity\<close>) are not represented: the model gives NaN for them. The groups
  \<^verbatim>\<open>line\<close> and \<^verbatim>\<open>column\<close> of the default pattern capture decimal integers only.
\<close>

datatype jsnum = NaN | Num int

definition is_digit :: "char \<Rightarrow> bool" where
  "is_digit c = (c \<in> set ''0123456789'')"

definition digit_val :: "char \<Rightarrow> int" where
  "digit_val c = int (of_char c) - 48"

definition digits_val :: "string \<Rightarrow> int" where
  "digits_val ds = foldl (\<lambda>a c. 10 * a + digit_val c) 0 ds"

definition Number_js :: "string option \<Rightarrow> jsnum" where
  "Number_js v =
     (case v of
        None \<Rightarrow> NaN
      | Some s \<Rightarrow>
          (let t = trim s in
           if t = [] then Num 0
           else (let neg = (take 1 t = ''-'');
                     ds = (if take 1 t = ''-'' \<or> take 1 t = ''+'' then drop 1 t else t)
                 in if ds \<noteq> [] \<and> list_all is_digit ds
                    then Num (if neg then - digits_val ds else digits_val ds)
                    else NaN)))"

section \<open>Regular expressions with named groups\<close>

text \<open>
  The patterns of \<^verbatim>\<open>baseLinter.ts\<close> are given to \<^verbatim>\<open>named-js-regexp\<close> and run by the
  platform's backtracking matcher. A pattern is modelled as a syntax tree; the matcher tries
  the alternatives in the order of the ECMAScript semantics (greedy quantifiers, leftmost
  alternative first) and passes the rest of the input and the captures to a continuation.
\<close>

datatype rx =
    Cls "char \<Rightarrow> bool"
  | Eoi
  | Seq rx rx
  | Alt rx rx
  | Opt rx
  | Star rx
  | Grp string rx

type_synonym caps = "string \<rightharpoonup> string"

primrec rx_names :: "rx \<Rightarrow> string set" where
  "rx_names (Cls P) = {}"
| "rx_names Eoi = {}"
| "rx_names (Seq a b) = rx_names a \<union> rx_names b"
| "rx_names (Alt a b) = rx_names a \<union> rx_names b"
| "rx_names (Opt a) = rx_names a"
| "rx_names (Star a) = rx_names a"
| "rx_names (Grp n a) = insert n (rx_names a)"

text \<open>
  The iterations of a starred body: each one must consume input (the empty check of the
  ECMAScript repeat matcher), so at most \<open>length s\<close> of them happen and the counter never
  stops an iteration that could match.
\<close>

primrec rx_star ::
  "nat \<Rightarrow> (string \<Rightarrow> caps \<Rightarrow> (string \<Rightarrow> caps \<Rightarrow> 'a option) \<Rightarrow> 'a option) \<Rightarrow>
   string \<Rightarrow> caps \<Rightarrow> (string \<Rightarrow> caps \<Rightarrow> 'a option) \<Rightarrow> 'a option" where
  "rx_star 0 f s c k = k s c"
| "rx_star (Suc n) f s c k =
     (case f s c (\<lambda>s' c'. if length s' < length s then rx_star n f s' c' k else None) of
        Some r \<Rightarrow> Some r
      | None \<Rightarrow> k s c)"

text \<open>
  A quantifier resets the captures of the groups in its body at the start of each iteration.
\<close>

definition reset_then ::
  "string set \<Rightarrow> (string \<Rightarrow> caps \<Rightarrow> (string \<Rightarrow> caps \<Rightarrow> 'a option) \<Rightarrow> 'a option) \<Rightarrow>
   string \<Rightarrow> caps \<Rightarrow> (string \<Rightarrow> caps \<Rightarrow> 'a option) \<Rightarrow> 'a option" where
  "reset_then N f = (\<lambda>s c k. f s (c |` (- N)) k)"

primrec rx_match ::
  "rx \<Rightarrow> string \<Rightarrow> caps \<Rightarrow> (string \<Rightarrow> caps \<Rightarrow> 'a option) \<Rightarrow> 'a option" where
  "rx_match (Cls P) = (\<lambda>s c k. case s of [] \<Rightarrow> None | x # xs \<Rightarrow> if P x then k xs c else None)"
| "rx_match Eoi = (\<lambda>s c k. if s = [] then k s c else None)"
| "rx_match (Seq a b) = (\<lambda>s c k. rx_match a s c (\<lambda>s' c'. rx_match b s' c' k))"
| "rx_match (Alt a b) =
     (\<lambda>s c k. case rx_match a s c k of Some r \<Rightarrow> Some r | None \<Rightarrow> rx_match b s c k)"
| "rx_match (Opt a) =
     (\<lambda>s c k. case reset_then (rx_names a) (rx_match a) s c k of
                Some r \<Rightarrow> Some r
              | None \<Rightarrow> k s c)"
| "rx_match (Star a) =
     (\<lambda>s c k. rx_star (length s) (reset_then (rx_names a) (rx_match a)) s c k)"
| "rx_match (Grp n a) =
     (\<lambda>s c k. rx_match a s c (\<lambda>s' c'. k s' (c'(n \<mapsto> take (length s - length s') s))))"

text \<open>\<^verbatim>\<open>exec\<close> of a freshly compiled pattern: the leftmost start position that matches.\<close>

fun rx_exec :: "rx \<Rightarrow> string \<Rightarrow> caps option" where
  "rx_exec r s =
     (case rx_match r s Map.empty (\<lambda>s' c. Some c) of
        Some c \<Rightarrow> Some c
      | None \<Rightarrow> (case s of [] \<Rightarrow> None | x # t \<Rightarrow> rx_exec r t))"

definition Chr :: "char \<Rightarrow> rx" where
  "Chr x = Cls (\<lambda>c. c = x)"

definition Plus :: "rx \<Rightarrow> rx" where
  "Plus a = Seq a (Star a)"

definition is_word :: "char \<Rightarrow> bool" where
  "is_word c = (c \<in> set ''abcdefghijklmnopqrstuvwxyzABCDEFGHIJKLMNOPQRSTUVWXYZ0123456789_'')"

definition is_dot :: "char \<Rightarrow> bool" where
  "is_dot c = (c \<noteq> LF \<and> c \<noteq> CR)"

text \<open>
  \<^verbatim>\<open>(?<line>\d+),(?<column>-?\d+),(?<type>\w+),(?<code>\w+\d+):(?<message>.*)\r?(\n|$)\<close>.
  The last group has no name and is not reported by \<^verbatim>\<open>groups()\<close>.
\<close>

definition REGEX :: rx where
  "REGEX =
     Seq (Grp ''line'' (Plus (Cls is_digit)))
    (Seq (Chr CHR '','')
    (Seq (Grp ''column'' (Seq (Opt (Chr CHR ''-'')) (Plus (Cls is_digit))))
    (Seq (Chr CHR '','')
    (Seq (Grp ''type'' (Plus (Cls is_word)))
    (Seq (Chr CHR '','')
    (Seq (Grp ''code'' (Seq (Plus (Cls is_word)) (Plus (Cls is_digit))))
    (Seq (Chr CHR '':'')
    (Seq (Grp ''message'' (Star (Cls is_dot)))
    (Seq (Opt (Chr CR))
         (Alt (Chr LF) Eoi))))))))))"

section \<open>The line parser of baseLinter.ts\<close>

text \<open>
  What the code can throw, catch and reject a promise with: an \<^verbatim>\<open>Error\<close> object with
  its message, a string, or any other value (with its rendering as a string).
\<close>

datatype js_exn = ErrorObj string | ThrownString string | ThrownOther string

text \<open>
  The \<^verbatim>\<open>regex\<close> argument: a text that the platform refuses to compile (with the message
  of the error it throws), or the syntax tree of a text that compiles.
\<close>

datatype pattern = Invalid string | Pattern rx

definition matchNamedRegEx :: "string \<Rightarrow> pattern \<Rightarrow> js_exn + caps option" where
  "matchNamedRegEx data regex =
     (case regex of
        Invalid msg \<Rightarrow> Inl (ErrorObj msg)
      | Pattern r \<Rightarrow> Inr (rx_exec r data))"

record ILintMessage =
  line :: jsnum
  column :: jsnum
  code :: "string option"
  message :: "string option"
  type :: "string option"
  provider :: string
  file_path :: "string option"

definition parseLine :: "string \<Rightarrow> pattern \<Rightarrow> string \<Rightarrow> int \<Rightarrow> js_exn + ILintMessage option" where
  "parseLine ln regex linterID colOffset =
     (case matchNamedRegEx ln regex of
        Inl e \<Rightarrow> Inl e
      | Inr None \<Rightarrow> Inr None
      | Inr (Some match) \<Rightarrow>
          (let match_line = Number_js (match ''line'');
               match_column = Number_js (match ''column'')
           in Inr (Some \<lparr>
                line = match_line,
                column = (case match_column of
                            NaN \<Rightarrow> Num 0
                          | Num c \<Rightarrow> if c \<le> 0 then Num 0 else Num (c - colOffset)),
                code = match ''code'',
                message = match ''message'',
                type = match ''type'',
                provider = linterID,
                file_path = match ''file'' \<rparr>)))"

section \<open>The diagnostic pipeline of baseLinter.ts\<close>

text \<open>
  The output channel is the text written to it so far. A \<^verbatim>\<open>BaseLinter\<close> is modelled with
  what \<^verbatim>\<open>run\<close> and \<^verbatim>\<open>parseMessages\<close> read from it and from its collaborators:
  the linter's id, whether it is enabled for the document, the rendering
  \<^verbatim>\<open>JSON.stringify(executionInfo)\<close>, the column offset and the setting
  \<^verbatim>\<open>linting.maxNumberOfProblems\<close>.
\<close>

definition append_text :: "string \<Rightarrow> string \<Rightarrow> string" where
  "append_text chan s = chan @ s"

definition appendLine :: "string \<Rightarrow> string \<Rightarrow> string" where
  "appendLine chan s = chan @ s @ [LF]"

definition hashes :: string where
  "hashes = replicate 10 CHR ''#''"

record BaseLinter =
  info_id :: string
  info_isEnabled :: bool
  executionInfo_json :: string
  columnOffset :: int
  maxNumberOfProblems :: int

text \<open>The \<^verbatim>\<open>catch\<close> block inside the loop of \<^verbatim>\<open>parseMessages\<close>.\<close>

definition log_parse_failure :: "BaseLinter \<Rightarrow> string \<Rightarrow> js_exn \<Rightarrow> string \<Rightarrow> string" where
  "log_parse_failure L ln err chan =
     (let chan1 = appendLine chan (hashes @ '' Linter '' @ info_id L @ '' failed to parse the line:'');
          chan2 = appendLine chan1 ln
      in case err of
           ThrownString s \<Rightarrow> appendLine chan2 s
         | ErrorObj m \<Rightarrow> appendLine chan2 m
         | ThrownOther v \<Rightarrow> chan2)"

text \<open>
  The \<^verbatim>\<open>for\<close> loop of \<^verbatim>\<open>parseMessages\<close>, with the messages pushed so far and the
  channel; \<^verbatim>\<open>break\<close> returns at once.
\<close>

fun parseMessages_loop ::
  "BaseLinter \<Rightarrow> pattern \<Rightarrow> string list \<Rightarrow> ILintMessage list \<Rightarrow> string \<Rightarrow>
   ILintMessage list \<times> string" where
  "parseMessages_loop L regEx [] messages chan = (messages, chan)"
| "parseMessages_loop L regEx (ln # rest) messages chan =
     (case parseLine ln regEx (info_id L) (columnOffset L) of
        Inl err \<Rightarrow> parseMessages_loop L regEx rest messages (log_parse_failure L ln err chan)
      | Inr None \<Rightarrow> parseMessages_loop L regEx rest messages chan
      | Inr (Some msg) \<Rightarrow>
          (let messages1 = messages @ [msg]
           in if int (length messages1) \<ge> maxNumberOfProblems L
              then (messages1, chan)
              else parseMessages_loop L regEx rest messages1 chan))"

definition parseMessages ::
  "BaseLinter \<Rightarrow> string \<Rightarrow> pattern \<Rightarrow> string \<Rightarrow> ILintMessage list \<times> string" where
  "parseMessages L output regEx chan =
     parseMessages_loop L regEx (splitLines output False False) [] chan"

text \<open>
  \<^verbatim>\<open>run\<close>. The execution service is a collaborator: its outcome for this invocation is
  the argument \<open>exec_result\<close>, the captured stdout or the value its promise is rejected with.
  The body of the \<^verbatim>\<open>try\<close> block is \<open>run_try\<close>; \<open>run\<close> adds the \<^verbatim>\<open>catch\<close>.
  A result \<open>Inl e\<close> of \<open>run\<close> would be a rejection of the promise it returns.
\<close>

definition run_try ::
  "BaseLinter \<Rightarrow> (js_exn + string) \<Rightarrow> pattern \<Rightarrow> string \<Rightarrow> (js_exn + ILintMessage list) \<times> string" where
  "run_try L exec_result regEx chan =
     (case exec_result of
        Inl error \<Rightarrow> (Inl error, chan)
      | Inr stdout \<Rightarrow>
          (let chan1 = append_text chan
                         (hashes @ '' Linting Output - '' @ info_id L @ hashes @ [LF]);
               chan2 = append_text chan1 stdout;
               chan3 = appendLine chan2 [];
               (messages, chan4) = parseMessages L stdout regEx chan3
           in (Inr messages, chan4)))"

definition run ::
  "BaseLinter \<Rightarrow> (js_exn + string) \<Rightarrow> pattern \<Rightarrow> string \<Rightarrow> (js_exn + ILintMessage list) \<times> string" where
  "run L exec_result regEx chan =
     (if \<not> info_isEnabled L then (Inr [], chan)
      else
        (let chan1 = appendLine chan (hashes @ '' Run linter '' @ info_id L @ '':'');
             chan2 = appendLine chan1 (executionInfo_json L);
             chan3 = appendLine chan2 []
         in case run_try L exec_result regEx chan3 of
              (Inr messages, chan4) \<Rightarrow> (Inr messages, chan4)
            | (Inl error, chan4) \<Rightarrow>
                (let chan5 = appendLine chan4 (''Linting with '' @ info_id L @ '' failed:'');
                     chan6 = (case error of ErrorObj m \<Rightarrow> appendLine chan5 m | _ \<Rightarrow> chan5)
                 in (Inr [], chan6))))"

section \<open>JSON values\<close>

text \<open>
  The values \<^verbatim>\<open>JSON.parse\<close> returns; \<^verbatim>\<open>undefined\<close> is \<open>None\<close> of \<open>json option\<close>.
  Numbers are integers here, exact below \<open>2^53\<close>. An object keeps its members in the order
  of the text; reading a property takes the last member of that name.
\<close>

datatype json =
    JNull
  | JBool bool
  | JNumber int
  | JString string
  | JArray "json list"
  | JObject "(string \<times> json) list"

text \<open>The \<^verbatim>\<open>TypeError\<close> of the platform; its message text is the platform's.\<close>

definition type_error :: js_exn where
  "type_error = ErrorObj ''TypeError''"

text \<open>
  \<^verbatim>\<open>v.name\<close> for the property names the code reads (\<^verbatim>\<open>message\<close>, \<^verbatim>\<open>traceback\<close>,
  \<^verbatim>\<open>type\<close>), which no prototype defines: a \<^verbatim>\<open>TypeError\<close> on \<^verbatim>\<open>undefined\<close> and
  \<^verbatim>\<open>null\<close>, the member of an object, \<^verbatim>\<open>undefined\<close> on every other value.
\<close>

definition js_get :: "json option \<Rightarrow> string \<Rightarrow> js_exn + json option" where
  "js_get v name =
     (case v of
        None \<Rightarrow> Inl type_error
      | Some JNull \<Rightarrow> Inl type_error
      | Some (JObject members) \<Rightarrow> Inr (map_of (rev members) name)
      | Some _ \<Rightarrow> Inr None)"

fun nat_digits :: "nat \<Rightarrow> string" where
  "nat_digits n =
     (if n < 10 then [char_of (48 + n)] else nat_digits (n div 10) @ [char_of (48 + n mod 10)])"

definition int_to_string :: "int \<Rightarrow> string" where
  "int_to_string i = (if i < 0 then CHR ''-'' # nat_digits (nat (- i)) else nat_digits (nat i))"

definition join_comma :: "string list \<Rightarrow> string" where
  "join_comma xs = concat (case xs of [] \<Rightarrow> [] | x # r \<Rightarrow> x # map (\<lambda>y. CHR '','' # y) r)"

text \<open>
  The conversion to a string that \<^verbatim>\<open>+\<close> applies to a JSON value: \<open>None\<close> is the
  \<^verbatim>\<open>TypeError\<close> for an object whose own member \<^verbatim>\<open>toString\<close> hides the inherited
  method. Inside an array, \<^verbatim>\<open>null\<close> is rendered as the empty string.
\<close>

fun js_to_string :: "json \<Rightarrow> string option" where
  "js_to_string JNull = Some ''null''"
| "js_to_string (JBool b) = Some (if b then ''true'' else ''false'')"
| "js_to_string (JNumber i) = Some (int_to_string i)"
| "js_to_string (JString s) = Some s"
| "js_to_string (JArray xs) =
     map_option join_comma
       (those (map (\<lambda>x. if x = JNull then Some [] else js_to_string x) xs))"
| "js_to_string (JObject members) =
     (if ''toString'' \<in> fst ` set members then None else Some ''[object Object]'')"

definition js_to_string_opt :: "json option \<Rightarrow> string option" where
  "js_to_string_opt v = (case v of None \<Rightarrow> Some ''undefined'' | Some x \<Rightarrow> js_to_string x)"

subsection \<open>A parser for JSON texts\<close>

text \<open>
  \<^verbatim>\<open>JSON.parse\<close> belongs to the platform. The functions of the refactor session take it as
  an argument, \<open>None\<close> standing for the \<^verbatim>\<open>SyntaxError\<close> it throws. \<open>json_parse\<close> is a
  recursive-descent parser for the JSON grammar, used to run the session on concrete texts.
  It covers ASCII texts whose numbers are integers: it gives \<open>None\<close> also for a number with a
  fraction or an exponent and for a \<^verbatim>\<open>\u\<close> escape, which the platform accepts. The first
  argument of \<open>json_value\<close> bounds the number of nested calls; \<open>json_parse\<close> starts it
  with twice the length of the text.
\<close>

definition DQ :: char where "DQ = CHR 0x22"
definition BSL :: char where "BSL = CHR 0x5C"

definition json_ws :: "string \<Rightarrow> string" where
  "json_ws s = dropWhile (\<lambda>c. c \<in> set [CHR '' '', CHR 0x09, LF, CR]) s"

definition json_escape :: "char \<Rightarrow> char option" where
  "json_escape e =
     (if e = DQ then Some DQ
      else if e = BSL then Some BSL
      else if e = CHR ''/'' then Some CHR ''/''
      else if e = CHR ''b'' then Some (CHR 0x08)
      else if e = CHR ''f'' then Some (CHR 0x0C)
      else if e = CHR ''n'' then Some LF
      else if e = CHR ''r'' then Some CR
      else if e = CHR ''t'' then Some (CHR 0x09)
      else None)"

fun json_string_body :: "string \<Rightarrow> (string \<times> string) option" where
  "json_string_body [] = None"
| "json_string_body [c] = (if c = DQ then Some ([], []) else None)"
| "json_string_body (c # e # cs) =
     (if c = DQ then Some ([], e # cs)
      else if c = BSL then
        (case json_escape e of
           None \<Rightarrow> None
         | Some x \<Rightarrow> map_option (\<lambda>(v, r). (x # v, r)) (json_string_body cs))
      else if (of_char c :: nat) < 32 then None
      else map_option (\<lambda>(v, r). (c # v, r)) (json_string_body (e # cs)))"

definition json_number :: "string \<Rightarrow> (int \<times> string) option" where
  "json_number s =
     (let neg = (take 1 s = ''-'');
          s1 = (if neg then drop 1 s else s);
          ds = takeWhile is_digit s1;
          rest = dropWhile is_digit s1
      in if ds = [] \<or> (length ds > 1 \<and> take 1 ds = ''0'') then None
         else if rest \<noteq> [] \<and> hd rest \<in> set ''.eE'' then None
         else Some (if neg then - digits_val ds else digits_val ds, rest))"

fun json_value :: "nat \<Rightarrow> string \<Rightarrow> (json \<times> string) option"
  and json_elements :: "nat \<Rightarrow> string \<Rightarrow> (json list \<times> string) option"
  and json_members :: "nat \<Rightarrow> string \<Rightarrow> ((string \<times> json) list \<times> string) option" where
  "json_value 0 s = None"
| "json_value (Suc n) s =
     (let t = json_ws s in
      if take 1 t = ''{'' then
        (if take 1 (json_ws (drop 1 t)) = ''}'' then Some (JObject [], drop 1 (json_ws (drop 1 t)))
         else map_option (\<lambda>(ms, r). (JObject ms, r)) (json_members n (drop 1 t)))
      else if take 1 t = ''['' then
        (if take 1 (json_ws (drop 1 t)) = '']'' then Some (JArray [], drop 1 (json_ws (drop 1 t)))
         else map_option (\<lambda>(vs, r). (JArray vs, r)) (json_elements n (drop 1 t)))
      else if take 1 t = [DQ] then
        map_option (\<lambda>(v, r). (JString v, r)) (json_string_body (drop 1 t))
      else if take 4 t = ''true'' then Some (JBool True, drop 4 t)
      else if take 5 t = ''false'' then Some (JBool False, drop 5 t)
      else if take 4 t = ''null'' then Some (JNull, drop 4 t)
      else map_option (\<lambda>(i, r). (JNumber i, r)) (json_number t))"
| "json_elements 0 s = None"
| "json_elements (Suc n) s =
     (case json_value n s of
        None \<Rightarrow> None
      | Some (v, r) \<Rightarrow>
          (let t = json_ws r in
           if take 1 t = '','' then map_option (\<lambda>(vs, r1). (v # vs, r1)) (json_elements n (drop 1 t))
           else if take 1 t = '']'' then Some ([v], drop 1 t)
           else None))"
| "json_members 0 s = None"
| "json_members (Suc n) s =
     (let t = json_ws s in
      if take 1 t \<noteq> [DQ] then None
      else
        (case json_string_body (drop 1 t) of
           None \<Rightarrow> None
         | Some (key, r) \<Rightarrow>
             (let t1 = json_ws r in
              if take 1 t1 \<noteq> '':'' then None
              else
                (case json_value n (drop 1 t1) of
                   None \<Rightarrow> None
                 | Some (v, r1) \<Rightarrow>
                     (let t2 = json_ws r1 in
                      if take 1 t2 = '','' then
                        map_option (\<lambda>(ms, r2). ((key, v) # ms, r2)) (json_members n (drop 1 t2))
                      else if take 1 t2 = ''}'' then Some ([(key, v)], drop 1 t2)
                      else None)))))"

definition json_parse :: "string \<Rightarrow> json option" where
  "json_parse s =
     (case json_value (2 * length s + 2) s of
        None \<Rightarrow> None
      | Some (v, r) \<Rightarrow> if json_ws r = [] then Some v else None)"

section \<open>The refactor worker session of refactor.ts\<close>

text \<open>
  A \<^verbatim>\<open>RefactorProxy\<close> with its fields. Promises, deferreds and subprocess handles are
  numbers, fresh from \<open>next_id\<close>. \<open>commandResolve\<close> and \<open>commandReject\<close> hold the promise
  whose functions are stored; \<open>settled\<close> lists the promises and deferreds that are resolved
  or rejected (settling one again does nothing). \<open>suspended\<close> are the calls of
  \<^verbatim>\<open>sendCommand\<close> waiting at \<^verbatim>\<open>await this.initialize()\<close>: the deferred awaited,
  the command and the promise of the call. \<open>issued\<close> is a history of the promises of all
  calls of \<^verbatim>\<open>sendCommand\<close> on this proxy. The deferred of \<^verbatim>\<open>../async\<close> is not
  among the sources; it is taken to be a promise together with its resolve and reject
  functions.
\<close>

record RefactorProxy =
  process :: "nat option"
  previousOutData :: string
  previousStdErrData :: string
  startedSuccessfully :: bool
  commandResolve :: "nat option"
  commandReject :: "nat option"
  initialized :: "nat option"
  suspended :: "(nat \<times> string \<times> nat) list"
  settled :: "nat list"
  next_id :: nat
  issued :: "nat list"

text \<open>What a step of the session does to the outside, in order.\<close>

datatype effect =
    Spawn nat
  | Kill nat
  | StdinWrite nat string
  | InitResolved nat
  | InitRejected nat js_exn
  | CommandResolved nat "json option"
  | CommandRejected nat js_exn
  | ConsoleError
  | Throws js_exn

definition new_RefactorProxy :: RefactorProxy where
  "new_RefactorProxy =
     \<lparr> process = None, previousOutData = [], previousStdErrData = [],
       startedSuccessfully = False, commandResolve = None, commandReject = None,
       initialized = None, suspended = [], settled = [], next_id = 0, issued = [] \<rparr>"

definition settle :: "RefactorProxy \<Rightarrow> nat \<Rightarrow> effect \<Rightarrow> RefactorProxy \<times> effect list" where
  "settle p i e =
     (if i \<in> set (settled p) then (p, []) else (p\<lparr>settled := i # settled p\<rparr>, [e]))"

text \<open>\<^verbatim>\<open>dispose\<close>: the \<^verbatim>\<open>try\<close> swallows the error of killing when there is no process.\<close>

definition dispose :: "RefactorProxy \<Rightarrow> RefactorProxy \<times> effect list" where
  "dispose p =
     (p\<lparr>process := None\<rparr>, case process p of None \<Rightarrow> [] | Some h \<Rightarrow> [Kill h])"

definition initialize :: "RefactorProxy \<Rightarrow> RefactorProxy \<times> effect list \<times> nat" where
  "initialize p =
     (let d = next_id p; h = Suc (next_id p)
      in (p\<lparr>initialized := Some d, process := Some h, next_id := Suc (Suc (next_id p))\<rparr>,
          [Spawn h], d))"

text \<open>\<^verbatim>\<open>sendCommand\<close> up to its \<^verbatim>\<open>await\<close>; the result names the promise of the call.\<close>

definition sendCommand :: "RefactorProxy \<Rightarrow> string \<Rightarrow> RefactorProxy \<times> effect list \<times> nat" where
  "sendCommand p command =
     (let c = next_id p;
          p1 = p\<lparr>next_id := Suc c, issued := issued p @ [c]\<rparr>;
          (p2, effs, d) = initialize p1
      in (p2\<lparr>suspended := suspended p2 @ [(d, command, c)]\<rparr>, effs, c))"

text \<open>
  The rest of \<^verbatim>\<open>sendCommand\<close>, run for the calls whose deferred is resolved: the executor
  of the new promise stores its functions and writes the command.
\<close>

fun resume_commands :: "(nat \<times> string \<times> nat) list \<Rightarrow> RefactorProxy \<Rightarrow> RefactorProxy \<times> effect list" where
  "resume_commands [] p = (p, [])"
| "resume_commands ((d, command, c) # rest) p =
     (let p1 = p\<lparr>commandResolve := Some c, commandReject := Some c\<rparr>;
          (p2, e1) = (case process p1 of
                        None \<Rightarrow> settle p1 c (CommandRejected c type_error)
                      | Some h \<Rightarrow> (p1, [StdinWrite h (command @ [LF])]));
          (p3, e2) = resume_commands rest p2
      in (p3, e1 @ e2))"

text \<open>The calls whose deferred is rejected throw at the \<^verbatim>\<open>await\<close>: their promise is rejected.\<close>

fun fail_commands ::
  "(nat \<times> string \<times> nat) list \<Rightarrow> js_exn \<Rightarrow> RefactorProxy \<Rightarrow> RefactorProxy \<times> effect list" where
  "fail_commands [] r p = (p, [])"
| "fail_commands ((d, command, c) # rest) r p =
     (let (p1, e1) = settle p c (CommandRejected c r);
          (p2, e2) = fail_commands rest r p1
      in (p2, e1 @ e2))"

definition resolve_initialized :: "RefactorProxy \<Rightarrow> RefactorProxy \<times> effect list" where
  "resolve_initialized p =
     (case initialized p of
        None \<Rightarrow> (p, [Throws type_error])
      | Some d \<Rightarrow>
          if d \<in> set (settled p) then (p, [])
          else
            (let waiting = filter (\<lambda>(d1, command, c). d1 = d) (suspended p);
                 p1 = p\<lparr>settled := d # settled p,
                        suspended := filter (\<lambda>(d1, command, c). d1 \<noteq> d) (suspended p)\<rparr>;
                 (p2, effs) = resume_commands waiting p1
             in (p2, InitResolved d # effs)))"

definition reject_initialized :: "RefactorProxy \<Rightarrow> js_exn \<Rightarrow> RefactorProxy \<times> effect list" where
  "reject_initialized p r =
     (case initialized p of
        None \<Rightarrow> (p, [Throws type_error])
      | Some d \<Rightarrow>
          if d \<in> set (settled p) then (p, [])
          else
            (let waiting = filter (\<lambda>(d1, command, c). d1 = d) (suspended p);
                 p1 = p\<lparr>settled := d # settled p,
                        suspended := filter (\<lambda>(d1, command, c). d1 \<noteq> d) (suspended p)\<rparr>;
                 (p2, effs) = fail_commands waiting r p1
             in (p2, InitRejected d r # effs)))"

text \<open>\<^verbatim>\<open>this._commandReject(r)\<close>: a \<^verbatim>\<open>TypeError\<close> while no function is stored.\<close>

definition call_commandReject :: "RefactorProxy \<Rightarrow> js_exn \<Rightarrow> RefactorProxy \<times> effect list" where
  "call_commandReject p r =
     (case commandReject p of
        None \<Rightarrow> (p, [Throws type_error])
      | Some c \<Rightarrow> settle p c (CommandRejected c r))"

text \<open>
  \<^verbatim>\<open>dataStr.split(/\r?\n/g).filter((line) => line.length > 0).map((resp) => JSON.parse(resp))\<close>:
  \<open>None\<close> when a line does not parse.
\<close>

definition parse_records :: "(string \<Rightarrow> json option) \<Rightarrow> string \<Rightarrow> json list option" where
  "parse_records JSON_parse dataStr =
     those (map JSON_parse (filter (\<lambda>line. length line > 0) (split_lines dataStr)))"

definition first_record :: "json list \<Rightarrow> json option" where
  "first_record response = (case response of [] \<Rightarrow> None | r # rest \<Rightarrow> Some r)"

definition onData ::
  "(string \<Rightarrow> json option) \<Rightarrow> RefactorProxy \<Rightarrow> string \<Rightarrow> RefactorProxy \<times> effect list" where
  "onData JSON_parse p data =
     (case commandResolve p of
        None \<Rightarrow> (p, [])
      | Some c \<Rightarrow>
          (let dataStr = previousOutData p @ data;
               p1 = p\<lparr>previousOutData := dataStr\<rparr>
           in case parse_records JSON_parse dataStr of
                None \<Rightarrow> (p1, [])
              | Some response \<Rightarrow>
                  (let p2 = p1\<lparr>previousOutData := []\<rparr>;
                       (p3, e1) = dispose p2;
                       (p4, e2) = settle p3 c (CommandResolved c (first_record response))
                   in (p4\<lparr>commandResolve := None\<rparr>, e1 @ e2))))"

text \<open>
  \<^verbatim>\<open>splitLines(traceback, { trim: false, removeEmptyEntries: false }).pop()\<close>: the last line
  of the traceback; a \<^verbatim>\<open>TypeError\<close> when the traceback is not a string.
\<close>

definition traceback_summary :: "json option \<Rightarrow> js_exn + string" where
  "traceback_summary tb =
     (case tb of
        Some (JString t) \<Rightarrow>
          Inr (case splitLines t False False of [] \<Rightarrow> ''undefined'' | l # ls \<Rightarrow> last (l # ls))
      | _ \<Rightarrow> Inl type_error)"

text \<open>
  Lines 142 to 145 of \<^verbatim>\<open>handleStdError\<close>: the message of the first record, replaced by
  the summary of its traceback when it is not a non-empty string, then a newline and the
  traceback.
\<close>

definition error_message :: "json option \<Rightarrow> js_exn + string" where
  "error_message first =
     (case js_get first ''message'' of
        Inl e \<Rightarrow> Inl e
      | Inr m \<Rightarrow>
          (case js_get first ''traceback'' of
             Inl e \<Rightarrow> Inl e
           | Inr tb \<Rightarrow>
               (case (case m of
                        Some (JString s) \<Rightarrow> if length s = 0 then traceback_summary tb else Inr s
                      | _ \<Rightarrow> traceback_summary tb) of
                  Inl e \<Rightarrow> Inl e
                | Inr msg \<Rightarrow>
                    (case js_to_string_opt tb of
                       None \<Rightarrow> Inl type_error
                     | Some t \<Rightarrow> Inr (msg @ [LF] @ t)))))"

definition handleStdError ::
  "(string \<Rightarrow> json option) \<Rightarrow> RefactorProxy \<Rightarrow> string \<Rightarrow> RefactorProxy \<times> effect list" where
  "handleStdError JSON_parse p data =
     (let dataStr = previousStdErrData p @ data;
          p1 = p\<lparr>previousStdErrData := dataStr\<rparr>
      in case parse_records JSON_parse dataStr of
           None \<Rightarrow> (p1, [ConsoleError])
         | Some errorResponse \<Rightarrow>
             (let p2 = p1\<lparr>previousStdErrData := []\<rparr>;
                  first = first_record errorResponse
              in case error_message first of
                   Inl e \<Rightarrow> (p2, [Throws e])
                 | Inr errorMessage \<Rightarrow>
                     if startedSuccessfully p2
                     then call_commandReject p2 (ThrownString (''Refactor failed. '' @ errorMessage))
                     else if js_get first ''type'' = Inr (Some (JString ''ModuleNotFoundError''))
                     then reject_initialized p2 (ThrownString ''Not installed'')
                     else reject_initialized p2
                            (ThrownString (''Refactor failed. '' @ errorMessage))))"

definition handleError :: "RefactorProxy \<Rightarrow> js_exn \<Rightarrow> RefactorProxy \<times> effect list" where
  "handleError p error =
     (if startedSuccessfully p then call_commandReject p error else reject_initialized p error)"

text \<open>The subscription of \<^verbatim>\<open>initialize\<close> to the output of the subprocess.\<close>

datatype out_source = stdout | stderr

definition on_output ::
  "(string \<Rightarrow> json option) \<Rightarrow> RefactorProxy \<Rightarrow> out_source \<Rightarrow> string \<Rightarrow>
   RefactorProxy \<times> effect list" where
  "on_output JSON_parse p src out =
     (if src = stdout then
        (if \<not> startedSuccessfully p \<and> take 7 out = ''STARTED''
         then resolve_initialized (p\<lparr>startedSuccessfully := True\<rparr>)
         else onData JSON_parse p out)
      else handleStdError JSON_parse p out)"

text \<open>Stdout chunks arriving one after the other, with the effects of all of them.\<close>

fun on_chunks ::
  "(string \<Rightarrow> json option) \<Rightarrow> RefactorProxy \<Rightarrow> string list \<Rightarrow> RefactorProxy \<times> effect list" where
  "on_chunks JSON_parse p [] = (p, [])"
| "on_chunks JSON_parse p (chunk # chunks) =
     (let (p1, e1) = on_output JSON_parse p stdout chunk;
          (p2, e2) = on_chunks JSON_parse p1 chunks
      in (p2, e1 @ e2))"

text \<open>
  The session of one command: a new proxy, \<^verbatim>\<open>sendCommand\<close>, and then either nothing yet
  (\<open>starting\<close>) or the ready sentinel (\<open>busy\<close>).
\<close>

definition starting :: "string \<Rightarrow> RefactorProxy" where
  "starting command = fst (sendCommand new_RefactorProxy command)"

definition busy :: "(string \<Rightarrow> json option) \<Rightarrow> string \<Rightarrow> RefactorProxy" where
  "busy JSON_parse command =
     fst (on_output JSON_parse (starting command) stdout (''STARTED'' @ [LF]))"

section \<open>Refactor operations\<close>

subsection \<open>Offsets\<close>

text \<open>
  A position is a line and a character. A \<^verbatim>\<open>TextDocument\<close> is its text and the editor's
  \<^verbatim>\<open>offsetAt\<close>. \<open>text_document\<close> builds one over a text whose lines end in LF: the offset
  of a position is the start of its line plus the character, clipped to the line.
\<close>

type_synonym position = "nat \<times> nat"

record TextDocument =
  getText :: string
  offsetAt :: "position \<Rightarrow> nat"

definition line_starts :: "string \<Rightarrow> nat list" where
  "line_starts s = 0 # map Suc (filter (\<lambda>i. s ! i = LF) [0..<length s])"

definition text_offsetAt :: "string \<Rightarrow> position \<Rightarrow> nat" where
  "text_offsetAt s pos =
     (let starts = line_starts s; l = fst pos
      in if l \<ge> length starts then length s
         else (let lo = starts ! l;
                   hi = (if Suc l < length starts then starts ! Suc l else length s)
               in max (min (lo + snd pos) hi) lo))"

definition text_document :: "string \<Rightarrow> TextDocument" where
  "text_document s = \<lparr> getText = s, offsetAt = text_offsetAt s \<rparr>"

fun count_crlf :: "string \<Rightarrow> nat" where
  "count_crlf (c # d # r) = (if c = CR \<and> d = LF then Suc (count_crlf r) else count_crlf (d # r))"
| "count_crlf r = 0"

text \<open>
  Modelled from the spec: \<^verbatim>\<open>getWindowsLineEndingCount\<close> of \<^verbatim>\<open>../common\<close>, which is not
  among the sources: the count of extra line-ending characters preceding the position, one for
  each two-character line ending before the offset.
\<close>

definition getWindowsLineEndingCount :: "TextDocument \<Rightarrow> nat \<Rightarrow> nat" where
  "getWindowsLineEndingCount document offset = count_crlf (take offset (getText document))"

definition getOffsetAt :: "bool \<Rightarrow> TextDocument \<Rightarrow> position \<Rightarrow> int" where
  "getOffsetAt isWindows document pos =
     (if isWindows then int (offsetAt document pos)
      else (let offset = offsetAt document pos;
                winEols = getWindowsLineEndingCount document offset
            in int offset - int winEols))"

subsection \<open>Commands\<close>

text \<open>
  The command objects of \<^verbatim>\<open>addImport\<close> and of \<^verbatim>\<open>extractVariable\<close> and
  \<^verbatim>\<open>extractMethod\<close>, with their fields in the order of the source, and
  \<^verbatim>\<open>JSON.stringify\<close> on them.
\<close>

datatype command =
    AddImportCommand (lookup: string) (cmd_id: string) (cmd_file: string) (cmd_text: string)
      (cmd_name: string) (cmd_parent: string) (indent_size: nat)
  | ExtractCommand (lookup: string) (cmd_file: string) (cmd_start: string) (cmd_end: string)
      (cmd_id: string) (cmd_name: string) (indent_size: nat)

definition hex_digit :: "nat \<Rightarrow> char" where
  "hex_digit n = (''0123456789abcdef'') ! (n mod 16)"

definition json_escape_char :: "char \<Rightarrow> string" where
  "json_escape_char c =
     (if c = DQ then [BSL, DQ]
      else if c = BSL then [BSL, BSL]
      else if c = CHR 0x08 then [BSL, CHR ''b'']
      else if c = CHR 0x0C then [BSL, CHR ''f'']
      else if c = LF then [BSL, CHR ''n'']
      else if c = CR then [BSL, CHR ''r'']
      else if c = CHR 0x09 then [BSL, CHR ''t'']
      else if (of_char c :: nat) < 32
      then [BSL, CHR ''u'', CHR ''0'', CHR ''0'', hex_digit (of_char c div 16), hex_digit (of_char c)]
      else [c])"

definition json_quote :: "string \<Rightarrow> string" where
  "json_quote s = DQ # concat (map json_escape_char s) @ [DQ]"

definition json_field :: "string \<Rightarrow> string \<Rightarrow> string" where
  "json_field name rendered = json_quote name @ '':'' @ rendered"

fun JSON_stringify :: "command \<Rightarrow> string" where
  "JSON_stringify (AddImportCommand l i f t n p ind) =
     ''{'' @ join_comma
        [json_field ''lookup'' (json_quote l), json_field ''id'' (json_quote i),
         json_field ''file'' (json_quote f), json_field ''text'' (json_quote t),
         json_field ''name'' (json_quote n), json_field ''parent'' (json_quote p),
         json_field ''indent_size'' (nat_digits ind)] @ ''}''"
| "JSON_stringify (ExtractCommand l f s e i n ind) =
     ''{'' @ join_comma
        [json_field ''lookup'' (json_quote l), json_field ''file'' (json_quote f),
         json_field ''start'' (json_quote s), json_field ''end'' (json_quote e),
         json_field ''id'' (json_quote i), json_field ''name'' (json_quote n),
         json_field ''indent_size'' (nat_digits ind)] @ ''}''"

text \<open>
  The platform: whether \<^verbatim>\<open>process.platform\<close> is \<^verbatim>\<open>win32\<close>, and \<^verbatim>\<open>JSON.parse\<close>.
\<close>

record platform =
  is_win32 :: bool
  parse_json :: "string \<Rightarrow> json option"

definition proxy_addImport ::
  "platform \<Rightarrow> RefactorProxy \<Rightarrow> TextDocument \<Rightarrow> string \<Rightarrow> string \<Rightarrow> string \<Rightarrow> nat \<Rightarrow>
   RefactorProxy \<times> effect list \<times> nat" where
  "proxy_addImport P p document path name parent tab =
     sendCommand p (JSON_stringify
       (AddImportCommand ''add_import'' ''1'' path (getText document) name parent tab))"

definition proxy_extractVariable ::
  "platform \<Rightarrow> RefactorProxy \<Rightarrow> TextDocument \<Rightarrow> string \<Rightarrow> string \<Rightarrow> position \<times> position \<Rightarrow> nat \<Rightarrow>
   RefactorProxy \<times> effect list \<times> nat" where
  "proxy_extractVariable P p document name path rng tab =
     sendCommand p (JSON_stringify
       (ExtractCommand ''extract_variable'' path
          (int_to_string (getOffsetAt (is_win32 P) document (fst rng)))
          (int_to_string (getOffsetAt (is_win32 P) document (snd rng)))
          ''2'' name tab))"

definition proxy_extractMethod ::
  "platform \<Rightarrow> RefactorProxy \<Rightarrow> TextDocument \<Rightarrow> string \<Rightarrow> string \<Rightarrow> position \<times> position \<Rightarrow> nat \<Rightarrow>
   RefactorProxy \<times> effect list \<times> nat" where
  "proxy_extractMethod P p document name path rng tab =
     sendCommand p (JSON_stringify
       (ExtractCommand ''extract_method'' path
          (int_to_string (getOffsetAt (is_win32 P) document (fst rng)))
          (int_to_string (getOffsetAt (is_win32 P) document (snd rng)))
          ''3'' name tab))"

subsection \<open>Applying the diff\<close>

text \<open>
  The editor as \<^verbatim>\<open>applyImports\<close> and \<^verbatim>\<open>extractName\<close> see it: the lines of the document,
  the text of the output channel, the error messages shown and the calls of
  \<^verbatim>\<open>workspace.jumpTo\<close>. The collaborators are the translation of a diff into edits, which
  may throw, the application of edits, which may fail, and the content of the document.
\<close>

record TextEdit =
  range_start :: position
  range_end :: position
  newText :: string

record editor =
  doc_lines :: "string list"
  channel_text :: string
  shown_errors :: "string list"
  jumps :: "position option list"

record collaborators =
  getTextEditsFromPatch :: "string \<Rightarrow> string \<Rightarrow> js_exn + TextEdit list"
  applyEdits :: "string list \<Rightarrow> TextEdit list \<Rightarrow> js_exn + string list"
  getDocumentContent :: "string list \<Rightarrow> string"

datatype retval = Undefined | EmptyArray | PositionValue "position option"

text \<open>The text of an error in the \<^verbatim>\<open>catch\<close> blocks.\<close>

definition error_text :: "js_exn \<Rightarrow> string" where
  "error_text error =
     (case error of ErrorObj m \<Rightarrow> m | ThrownString s \<Rightarrow> s | ThrownOther v \<Rightarrow> v)"

definition applyImports_try ::
  "collaborators \<Rightarrow> editor \<Rightarrow> js_exn + string \<Rightarrow> editor \<times> (js_exn + retval)" where
  "applyImports_try C ed resp =
     (case resp of
        Inl e \<Rightarrow> (ed, Inl e)
      | Inr diff \<Rightarrow>
          if length diff = 0 then (ed, Inr Undefined)
          else (case getTextEditsFromPatch C (getDocumentContent C (doc_lines ed)) diff of
                  Inl e \<Rightarrow> (ed, Inl e)
                | Inr edits \<Rightarrow>
                    (case applyEdits C (doc_lines ed) edits of
                       Inl e \<Rightarrow> (ed, Inl e)
                     | Inr ls \<Rightarrow> (ed\<lparr>doc_lines := ls\<rparr>, Inr Undefined))))"

definition applyImports ::
  "collaborators \<Rightarrow> editor \<Rightarrow> js_exn + string \<Rightarrow> editor \<times> (js_exn + retval)" where
  "applyImports C ed resp =
     (case applyImports_try C ed resp of
        (ed1, Inr v) \<Rightarrow> (ed1, Inr v)
      | (ed1, Inl error) \<Rightarrow>
          (let ch1 = appendLine (channel_text ed1) (hashes @ ''Rope Output'' @ hashes);
               ch2 = appendLine ch1 (''Error in add import:'' @ [LF] @ error_text error);
               ch3 = appendLine ch2 []
           in (ed1\<lparr>channel_text := ch3,
                    shown_errors := shown_errors ed1 @
                      [''Cannot perform addImport using selected element(s).'']\<rparr>,
               Inl error)))"

fun indexOf :: "string \<Rightarrow> string \<Rightarrow> nat option" where
  "indexOf [] w = (if w = [] then Some 0 else None)"
| "indexOf (x # xs) w =
     (if take (length w) (x # xs) = w then Some 0 else map_option Suc (indexOf xs w))"

text \<open>The search for the new name from \<open>lineNumber\<close> on.\<close>

fun find_word :: "string list \<Rightarrow> string \<Rightarrow> nat \<Rightarrow> position option" where
  "find_word [] newName lineNumber = None"
| "find_word (l # ls) newName lineNumber =
     (case indexOf l newName of
        Some indexOfWord \<Rightarrow> Some (lineNumber, indexOfWord)
      | None \<Rightarrow> find_word ls newName (Suc lineNumber))"

text \<open>\<open>changeStartsAtLine\<close> after the \<^verbatim>\<open>forEach\<close>: \<open>None\<close> is the initial \<open>-1\<close>.\<close>

definition changeStartsAtLine :: "TextEdit list \<Rightarrow> nat option" where
  "changeStartsAtLine edits =
     foldl (\<lambda>acc edit. case acc of
                          None \<Rightarrow> Some (fst (range_start edit))
                        | Some l \<Rightarrow> if l > fst (range_start edit)
                                    then Some (fst (range_start edit)) else Some l)
           None edits"

definition extractName_try ::
  "collaborators \<Rightarrow> editor \<Rightarrow> string \<Rightarrow> js_exn + string \<Rightarrow> editor \<times> (js_exn + retval)" where
  "extractName_try C ed newName renameResponse =
     (case renameResponse of
        Inl e \<Rightarrow> (ed, Inl e)
      | Inr diff \<Rightarrow>
          if length diff = 0 then (ed, Inr EmptyArray)
          else (case getTextEditsFromPatch C (getDocumentContent C (doc_lines ed)) diff of
                  Inl e \<Rightarrow> (ed, Inl e)
                | Inr edits \<Rightarrow>
                    (case applyEdits C (doc_lines ed) edits of
                       Inl e \<Rightarrow> (ed, Inl e)
                     | Inr ls \<Rightarrow>
                         (let ed1 = ed\<lparr>doc_lines := ls\<rparr>
                          in case changeStartsAtLine edits of
                               None \<Rightarrow> (ed1, Inr Undefined)
                             | Some start \<Rightarrow>
                                 (let newWordPosition = find_word (drop start ls) newName start
                                  in (ed1\<lparr>jumps := jumps ed1 @ [newWordPosition]\<rparr>,
                                      Inr (PositionValue newWordPosition)))))))"

definition extractName ::
  "collaborators \<Rightarrow> editor \<Rightarrow> string \<Rightarrow> js_exn + string \<Rightarrow> editor \<times> (js_exn + retval)" where
  "extractName C ed newName renameResponse =
     (case extractName_try C ed newName renameResponse of
        (ed1, Inr v) \<Rightarrow> (ed1, Inr v)
      | (ed1, Inl error) \<Rightarrow>
          (let ch1 = appendLine (channel_text ed1) (hashes @ ''Refactor Output'' @ hashes);
               ch2 = appendLine ch1 (''Error in refactoring:'' @ [LF] @ error_text error);
               ch3 = appendLine ch2 []
           in (ed1\<lparr>channel_text := ch3,
                    shown_errors := shown_errors ed1 @
                      [''Cannot perform refactoring using selected element(s).'']\<rparr>,
               Inl error)))"

subsection \<open>The exported operations and the sessions they create\<close>

text \<open>
  What an exported operation learns from its collaborators before it creates a session:
  whether the document exists, whether its buffer is modified, whether \<^verbatim>\<open>rope\<close> is
  installed, whether the document is dirty and the \<^verbatim>\<open>write\<close> command then succeeds; the
  text document, its path, the tab size and the milliseconds of the clock.
\<close>

record request =
  doc_found :: bool
  buffer_modified :: bool
  rope_installed :: bool
  doc_dirty :: bool
  write_succeeds :: bool
  document :: TextDocument
  filePath :: string
  tabSize :: nat
  milliseconds :: nat

text \<open>
  The module: the proxies created so far, each with the effects of its steps, and the
  warnings shown. \<^verbatim>\<open>RefactorProxy\<close> is not exported: proxies are created here only.
\<close>

record refactor_module =
  sessions :: "RefactorProxy list"
  trace :: "(nat \<times> effect) list"
  warnings :: "string list"

definition checks_pass :: "request \<Rightarrow> refactor_module \<Rightarrow> bool \<times> refactor_module" where
  "checks_pass rq M =
     (if \<not> doc_found rq then (False, M)
      else if buffer_modified rq
      then (False, M\<lparr>warnings := warnings M @ [''Buffer not saved, please save the buffer first!'']\<rparr>)
      else if \<not> rope_installed rq
      then (False, M\<lparr>warnings := warnings M @ [''Module rope not installed'']\<rparr>)
      else if doc_dirty rq \<and> \<not> write_succeeds rq then (False, M)
      else (True, M))"

definition add_session :: "refactor_module \<Rightarrow> RefactorProxy \<times> effect list \<times> nat \<Rightarrow> refactor_module" where
  "add_session M r =
     (case r of (p, effs, c) \<Rightarrow>
        M\<lparr>sessions := sessions M @ [p],
          trace := trace M @ map (\<lambda>e. (length (sessions M), e)) effs\<rparr>)"

definition extractVariable ::
  "platform \<Rightarrow> request \<Rightarrow> position \<times> position \<Rightarrow> refactor_module \<Rightarrow> refactor_module" where
  "extractVariable P rq rng M =
     (case checks_pass rq M of
        (False, M1) \<Rightarrow> M1
      | (True, M1) \<Rightarrow>
          (let newName = ''newvariable'' @ nat_digits (milliseconds rq);
               proxy = new_RefactorProxy
           in add_session M1
                (proxy_extractVariable P proxy (document rq) newName (filePath rq) rng (tabSize rq))))"

definition extractMethod ::
  "platform \<Rightarrow> request \<Rightarrow> position \<times> position \<Rightarrow> refactor_module \<Rightarrow> refactor_module" where
  "extractMethod P rq rng M =
     (case checks_pass rq M of
        (False, M1) \<Rightarrow> M1
      | (True, M1) \<Rightarrow>
          (let newName = ''newmethod'' @ nat_digits (milliseconds rq);
               proxy = new_RefactorProxy
           in add_session M1
                (proxy_extractMethod P proxy (document rq) newName (filePath rq) rng (tabSize rq))))"

definition addImport ::
  "platform \<Rightarrow> request \<Rightarrow> string \<Rightarrow> string \<Rightarrow> refactor_module \<Rightarrow> refactor_module" where
  "addImport P rq name parentModule M =
     (case checks_pass rq M of
        (False, M1) \<Rightarrow> M1
      | (True, M1) \<Rightarrow>
          (let proxy = new_RefactorProxy
           in add_session M1
                (proxy_addImport P proxy (document rq) (filePath rq) name parentModule (tabSize rq))))"

text \<open>
  What can happen to the module: a call of an exported operation, output of the subprocess
  of a session on one of its streams, or a fault of that subprocess.
\<close>

datatype action =
    ExtractVariable request "position \<times> position"
  | ExtractMethod request "position \<times> position"
  | AddImport request string string
  | Output nat out_source string
  | Fault nat js_exn

definition session_step ::
  "refactor_module \<Rightarrow> nat \<Rightarrow> (RefactorProxy \<Rightarrow> RefactorProxy \<times> effect list) \<Rightarrow> refactor_module" where
  "session_step M i f =
     (if i < length (sessions M)
      then (case f (sessions M ! i) of
              (p, effs) \<Rightarrow> M\<lparr>sessions := (sessions M)[i := p],
                              trace := trace M @ map (\<lambda>e. (i, e)) effs\<rparr>)
      else M)"

fun module_step :: "platform \<Rightarrow> refactor_module \<Rightarrow> action \<Rightarrow> refactor_module" where
  "module_step P M (ExtractVariable rq rng) = extractVariable P rq rng M"
| "module_step P M (ExtractMethod rq rng) = extractMethod P rq rng M"
| "module_step P M (AddImport rq name parentModule) = addImport P rq name parentModule M"
| "module_step P M (Output i src out) =
     session_step M i (\<lambda>p. on_output (parse_json P) p src out)"
| "module_step P M (Fault i error) = session_step M i (\<lambda>p. handleError p error)"

definition module_init :: refactor_module where
  "module_init = \<lparr> sessions = [], trace = [], warnings = [] \<rparr>"

definition module_run :: "platform \<Rightarrow> action list \<Rightarrow> refactor_module" where
  "module_run P acts = foldl (module_step P) module_init acts"

section \<open>Notions used to state the properties\<close>

text \<open>The messages of the lines that parse, in the order of the lines.\<close>

definition matched :: "BaseLinter \<Rightarrow> pattern \<Rightarrow> string list \<Rightarrow> ILintMessage list" where
  "matched L regEx ls =
     List.map_filter
       (\<lambda>ln. case parseLine ln regEx (info_id L) (columnOffset L) of
               Inr (Some m) \<Rightarrow> Some m
             | _ \<Rightarrow> None) ls"



text \<open>The matcher of a character class, as a function of its own.\<close>

definition cls_step ::
  "(char \<Rightarrow> bool) \<Rightarrow> string \<Rightarrow> caps \<Rightarrow> (string \<Rightarrow> caps \<Rightarrow> 'a option) \<Rightarrow> 'a option" where
  "cls_step P = (\<lambda>s c k. case s of [] \<Rightarrow> None | x # xs \<Rightarrow> if P x then k xs c else None)"



text \<open>A linter to run the pipeline on.\<close>

definition example_linter :: BaseLinter where
  "example_linter =
     \<lparr> info_id = ''pylint'', info_isEnabled = True, executionInfo_json = ''{}'',
       columnOffset = 0, maxNumberOfProblems = 100 \<rparr>"

text \<open>
  The effects that write a command to a subprocess, the effects of one session in the trace of
  the module, and the promises of suspended calls.
\<close>

definition is_write :: "effect \<Rightarrow> bool" where
  "is_write e = (case e of StdinWrite h s \<Rightarrow> True | _ \<Rightarrow> False)"

definition writes :: "effect list \<Rightarrow> nat" where
  "writes effs = length (filter is_write effs)"

definition session_effects :: "refactor_module \<Rightarrow> nat \<Rightarrow> effect list" where
  "session_effects M i = map snd (filter (\<lambda>x. fst x = i) (trace M))"

definition promises :: "(nat \<times> string \<times> nat) list \<Rightarrow> nat set" where
  "promises ws = (\<lambda>x. snd (snd x)) ` set ws"

definition step_ok :: "RefactorProxy \<Rightarrow> RefactorProxy \<times> effect list \<Rightarrow> bool" where
  "step_ok p r =
     (issued (fst r) = issued p \<and>
      set (suspended (fst r)) \<subseteq> set (suspended p) \<and>
      (\<forall>c. commandResolve (fst r) = Some c \<longrightarrow>
            commandResolve p = Some c \<or> c \<in> promises (suspended p)) \<and>
      (\<forall>c. commandReject (fst r) = Some c \<longrightarrow>
            commandReject p = Some c \<or> c \<in> promises (suspended p)) \<and>
      writes (snd r) + length (suspended (fst r)) \<le> length (suspended p))"

definition single_command :: "RefactorProxy \<Rightarrow> bool" where
  "single_command p =
     (length (issued p) = 1 \<and>
      promises (suspended p) \<subseteq> set (issued p) \<and>
      (\<forall>c. commandResolve p = Some c \<longrightarrow> issued p = [c]) \<and>
      (\<forall>c. commandReject p = Some c \<longrightarrow> issued p = [c]))"

definition module_inv :: "refactor_module \<Rightarrow> bool" where
  "module_inv M =
     ((\<forall>x \<in> set (trace M). fst x < length (sessions M)) \<and>
      (\<forall>i < length (sessions M).
         single_command (sessions M ! i) \<and>
         writes (session_effects M i) + length (suspended (sessions M ! i)) \<le> 1))"

text \<open>
  The error records of the scenarios, as the texts that arrive on stderr (the traceback holds
  the escape \<^verbatim>\<open>\n\<close>), and the response of the scenario on stdout.
\<close>

definition scenario_record :: string where
  \<open>scenario_record = ''{"message":"","traceback":"Traceback...'' @ [BSL] @
      ''nModuleNotFoundError: no module rope"}''\<close>

definition tagged_record :: string where
  \<open>tagged_record = ''{"message":"","traceback":"Traceback...'' @ [BSL] @
      ''nModuleNotFoundError: no module rope","type":"ModuleNotFoundError"}''\<close>

definition tagged_json :: json where
  "tagged_json = JObject [(''message'', JString []),
     (''traceback'', JString (''Traceback...'' @ [LF] @ ''ModuleNotFoundError: no module rope'')),
     (''type'', JString ''ModuleNotFoundError'')]"

definition two_line_record :: string where
  \<open>two_line_record = ''{"traceback":"A'' @ [BSL] @ ''nB"}''\<close>

definition results_x :: json where
  "results_x = JObject [(''results'', JArray [JObject [(''diff'', JString ''x'')]])]"

text \<open>A platform, a request and the actions of two operations, to run the module on.\<close>

definition example_platform :: platform where
  "example_platform = \<lparr> is_win32 = False, parse_json = json_parse \<rparr>"

definition example_request :: request where
  "example_request =
     \<lparr> doc_found = True, buffer_modified = False, rope_installed = True, doc_dirty = False,
       write_succeeds = True, document = text_document (''x = 1 + 2'' @ [LF]),
       filePath = ''/tmp/a.py'', tabSize = 4, milliseconds = 7 \<rparr>"

definition example_actions :: "action list" where
  \<open>example_actions =
     [ExtractVariable example_request ((0, 4), (0, 9)),
      Output 0 stdout (''STARTED'' @ [LF]),
      AddImport example_request ''os'' [],
      Output 0 stdout ''{"results"'',
      Output 1 stderr two_line_record,
      Output 0 stdout ('':[{"diff":"x"}]}'' @ [LF])]\<close>


section \<open>Lemmas on the matcher and the default pattern\<close>


lemma reset_then_empty: "reset_then {} f = f"
  by (simp add: reset_then_def restrict_map_def)

lemma rx_match_Cls: "rx_match (Cls P) = cls_step P"
  by (simp add: cls_step_def)

lemma star_cls_all:
  assumes "list_all P xs" "rest = [] \<or> \<not> P (hd rest)" "k rest c = Some r" "length xs \<le> n"
  shows "rx_star n (cls_step P) (xs @ rest) c k = Some r"
  using assms
proof (induction xs arbitrary: n)
  case Nil
  then show ?case by (cases n; cases rest) (auto simp: cls_step_def)
next
  case (Cons x xs)
  then obtain n' where n: "n = Suc n'" and "length xs \<le> n'" by (cases n) auto
  with Cons have "rx_star n' (cls_step P) (xs @ rest) c k = Some r" by simp
  with Cons.prems n show ?case by (simp add: cls_step_def)
qed

lemma star_cls_back:
  assumes "list_all P ys" "P z" "rest = [] \<or> \<not> P (hd rest)" "k rest c = None" "k (z # rest) c = Some r" "length ys < n"
  shows "rx_star n (cls_step P) (ys @ z # rest) c k = Some r"
  using assms
proof (induction ys arbitrary: n)
  case Nil
  then obtain n' where n: "n = Suc n'" by (cases n) auto
  have "rx_star n' (cls_step P) rest c k = None"
    using Nil.prems by (cases n'; cases rest) (auto simp: cls_step_def)
  with Nil.prems n show ?case by (simp add: cls_step_def)
next
  case (Cons y ys)
  then obtain n' where n: "n = Suc n'" and "length ys < n'" by (cases n) auto
  with Cons have "rx_star n' (cls_step P) (ys @ z # rest) c k = Some r" by simp
  with Cons.prems n show ?case by (simp add: cls_step_def)
qed

lemma match_plus_cls_Cons:
  "rx_match (Plus (Cls P)) (x # s) c K = (if P x then rx_star (length s) (cls_step P) s c K else None)"
  by (simp add: Plus_def reset_then_empty rx_match_Cls del: rx_match.simps(1)) (simp add: cls_step_def)

lemma match_plus_cls:
  assumes "list_all P xs" "xs \<noteq> []" "rest = [] \<or> \<not> P (hd rest)" "k rest c = Some r"
  shows "rx_match (Plus (Cls P)) (xs @ rest) c k = Some r"
proof -
  obtain x xs' where xs: "xs = x # xs'" using assms(2) by (cases xs) auto
  have "rx_star (length (xs' @ rest)) (cls_step P) (xs' @ rest) c k = Some r"
    using assms xs by (intro star_cls_all) auto
  then show ?thesis using assms(1) xs by (simp add: Plus_def reset_then_empty rx_match_Cls del: rx_match.simps(1)) (simp add: cls_step_def)
qed

lemma match_star_cls:
  assumes "list_all P xs" "rest = [] \<or> \<not> P (hd rest)" "k rest c = Some r"
  shows "rx_match (Star (Cls P)) (xs @ rest) c k = Some r"
proof -
  have "rx_star (length (xs @ rest)) (cls_step P) (xs @ rest) c k = Some r"
    using assms by (intro star_cls_all) auto
  then show ?thesis by (simp add: reset_then_empty rx_match_Cls del: rx_match.simps(1))
qed

lemma match_field:
  assumes "list_all P xs" "xs \<noteq> []" "\<not> P d" "rx_match R s (c(n \<mapsto> xs)) k = Some r"
  shows "rx_match (Seq (Grp n (Plus (Cls P))) (Seq (Chr d) R)) (xs @ d # s) c k = Some r"
proof -
  have "rx_match (Plus (Cls P)) (xs @ d # s) c
          (\<lambda>s' c'. rx_match (Seq (Chr d) R) s' (c'(n \<mapsto> take (length (xs @ d # s) - length s') (xs @ d # s))) k) = Some r"
    using assms by (intro match_plus_cls) (auto simp: Chr_def)
  then show ?thesis by simp
qed


lemma is_digit_word: "is_digit c \<Longrightarrow> is_word c"
  by (auto simp: is_digit_def is_word_def)

lemma match_opt_chr_skip:
  "s = [] \<or> hd s \<noteq> x \<Longrightarrow> rx_match (Opt (Chr x)) s c K = K s c"
  by (cases s) (auto simp: Chr_def reset_then_empty)

lemma match_opt_chr_take:
  "K s c = Some r \<Longrightarrow> rx_match (Opt (Chr x)) (x # s) c K = Some r"
  by (simp add: Chr_def reset_then_empty)

lemma match_chr: "rx_match (Chr x) (x # s) c K = K s c"
  by (simp add: Chr_def)

lemma match_column:
  assumes "sg = [] \<or> sg = ''-''" "list_all is_digit cs" "cs \<noteq> []" "\<not> is_digit d"
    and "rx_match R s (c(n \<mapsto> sg @ cs)) k = Some r"
  shows "rx_match (Seq (Grp n (Seq (Opt (Chr CHR ''-'')) (Plus (Cls is_digit)))) (Seq (Chr d) R))
           (sg @ cs @ d # s) c k = Some r"
proof -
  define K where "K = (\<lambda>s' c'. rx_match (Seq (Chr d) R) s'
              (c'(n \<mapsto> take (length (sg @ cs @ d # s) - length s') (sg @ cs @ d # s))) k)"
  have start: "rx_match (Seq (Grp n (Seq (Opt (Chr CHR ''-'')) (Plus (Cls is_digit)))) (Seq (Chr d) R))
           (sg @ cs @ d # s) c k =
         rx_match (Opt (Chr CHR ''-'')) (sg @ cs @ d # s) c (\<lambda>s' c'. rx_match (Plus (Cls is_digit)) s' c' K)"
    unfolding K_def by (simp only: rx_match.simps)
  have "K (d # s) c = Some r"
    unfolding K_def using assms(5) by (simp add: match_chr)
  then have plus: "rx_match (Plus (Cls is_digit)) (cs @ d # s) c K = Some r"
    using assms by (intro match_plus_cls) auto
  show ?thesis
  proof (cases "sg = []")
    case True
    obtain x cs' where cs: "cs = x # cs'" using assms(3) by (cases cs) auto
    then have "x \<noteq> CHR ''-''" using assms(2) by (auto simp: is_digit_def)
    then have "rx_match (Opt (Chr CHR ''-'')) (cs @ d # s) c (\<lambda>s' c'. rx_match (Plus (Cls is_digit)) s' c' K)
        = rx_match (Plus (Cls is_digit)) (cs @ d # s) c K"
      using cs by (intro match_opt_chr_skip) simp
    then show ?thesis using plus True start by simp
  next
    case False
    then have sg: "sg = ''-''" using assms(1) by simp
    have "rx_match (Opt (Chr CHR ''-'')) (CHR ''-'' # cs @ d # s) c (\<lambda>s' c'. rx_match (Plus (Cls is_digit)) s' c' K)
        = Some r"
      using plus by (intro match_opt_chr_take)
    then show ?thesis using sg start by simp
  qed
qed

lemma match_code:
  assumes "list_all is_word w" "w \<noteq> []" "is_digit z" "\<not> is_word d"
    and "rx_match R s (c(n \<mapsto> w @ [z])) k = Some r"
  shows "rx_match (Seq (Grp n (Seq (Plus (Cls is_word)) (Plus (Cls is_digit)))) (Seq (Chr d) R))
           (w @ z # d # s) c k = Some r"
proof -
  obtain x w' where w: "w = x # w'" using assms(2) by (cases w) auto
  have nd: "\<not> is_digit d" using assms(4) is_digit_word by blast
  define K2 where "K2 = (\<lambda>s' c'. rx_match (Seq (Chr d) R) s'
              (c'(n \<mapsto> take (length (w @ z # d # s) - length s') (w @ z # d # s))) k)"
  define K where "K = (\<lambda>s' c'. rx_match (Plus (Cls is_digit)) s' c' K2)"
  have start: "rx_match (Seq (Grp n (Seq (Plus (Cls is_word)) (Plus (Cls is_digit)))) (Seq (Chr d) R))
           (w @ z # d # s) c k = rx_match (Plus (Cls is_word)) (w @ z # d # s) c K"
    unfolding K_def K2_def by (simp only: rx_match.simps)
  have k1: "K (d # s) c = None"
    unfolding K_def using nd by (simp add: Plus_def)
  have "K2 (d # s) c = Some r"
    unfolding K2_def using assms(5) by (simp add: match_chr)
  then have "rx_match (Plus (Cls is_digit)) ([z] @ d # s) c K2 = Some r"
    using assms nd by (intro match_plus_cls) auto
  then have k2: "K (z # d # s) c = Some r" unfolding K_def by simp
  have star: "rx_star (length (w' @ z # d # s)) (cls_step is_word) (w' @ z # d # s) c K = Some r"
    using assms w k1 k2 by (intro star_cls_back) (auto simp: is_digit_word)
  have "rx_match (Plus (Cls is_word)) (x # w' @ z # d # s) c K =
          rx_star (length (w' @ z # d # s)) (cls_step is_word) (w' @ z # d # s) c K"
  proof -
    have "is_word x" using assms(1) w by simp
    then show ?thesis by (simp only: match_plus_cls_Cons if_True)
  qed
  then show ?thesis using start star w by simp
qed

lemma match_message:
  assumes "list_all is_dot m" "e \<in> {[], [CR], [LF], [CR, LF]}"
  shows "rx_match (Seq (Grp ''message'' (Star (Cls is_dot))) (Seq (Opt (Chr CR)) (Alt (Chr LF) Eoi)))
           (m @ e) c (\<lambda>s' c'. Some c') = Some (c(''message'' \<mapsto> m))"
proof -
  define K where "K = (\<lambda>s' c'. rx_match (Seq (Opt (Chr CR)) (Alt (Chr LF) Eoi)) s'
              (c'(''message'' \<mapsto> take (length (m @ e) - length s') (m @ e))) (\<lambda>s' c'. Some c'))"
  have start: "rx_match (Seq (Grp ''message'' (Star (Cls is_dot))) (Seq (Opt (Chr CR)) (Alt (Chr LF) Eoi)))
           (m @ e) c (\<lambda>s' c'. Some c') = rx_match (Star (Cls is_dot)) (m @ e) c K"
    unfolding K_def by (simp only: rx_match.simps)
  have e: "e = [] \<or> \<not> is_dot (hd e)" using assms(2) by (auto simp: is_dot_def)
  have "K e c = Some (c(''message'' \<mapsto> m))"
    unfolding K_def using assms(2) by (auto simp: reset_then_empty Chr_def LF_def CR_def)
  then have "rx_match (Star (Cls is_dot)) (m @ e) c K = Some (c(''message'' \<mapsto> m))"
    using assms(1) e by (intro match_star_cls) auto
  then show ?thesis using start by simp
qed

lemma rx_exec_REGEX:
  assumes "list_all is_digit ls" "ls \<noteq> []"
    and "sg = [] \<or> sg = ''-''" "list_all is_digit cs" "cs \<noteq> []"
    and "list_all is_word t" "t \<noteq> []"
    and "list_all is_word w" "w \<noteq> []" "is_digit z"
    and "list_all is_dot m" "e \<in> {[], [CR], [LF], [CR, LF]}"
  shows "rx_exec REGEX (ls @ CHR '','' # sg @ cs @ CHR '','' # t @ CHR '','' # w @ z # CHR '':'' # m @ e) =
           Some [''line'' \<mapsto> ls, ''column'' \<mapsto> sg @ cs, ''type'' \<mapsto> t, ''code'' \<mapsto> w @ [z], ''message'' \<mapsto> m]"
proof -
  let ?k = "\<lambda>(s'::string) (c'::caps). Some c'"
  let ?c = "[''line'' \<mapsto> ls, ''column'' \<mapsto> sg @ cs, ''type'' \<mapsto> t, ''code'' \<mapsto> w @ [z], ''message'' \<mapsto> m]"
  have "rx_match REGEX (ls @ CHR '','' # sg @ cs @ CHR '','' # t @ CHR '','' # w @ z # CHR '':'' # m @ e) Map.empty ?k = Some ?c"
    unfolding REGEX_def
    apply (rule match_field[OF assms(1,2)])
     apply (simp add: is_digit_def)
    apply (rule match_column[OF assms(3,4,5)])
     apply (simp add: is_digit_def)
    apply (rule match_field[OF assms(6,7)])
     apply (simp add: is_word_def)
    apply (rule match_code[OF assms(8,9,10)])
     apply (simp add: is_word_def)
    apply (rule match_message[OF assms(11,12)])
    done
  then show ?thesis by simp
qed


section \<open>What the matcher can match\<close>














section \<open>Lemmas on numbers\<close>

lemma trim_id: "s \<noteq> [] \<Longrightarrow> \<not> is_space (hd s) \<Longrightarrow> \<not> is_space (last s) \<Longrightarrow> trim s = s"
proof -
  assume a: "s \<noteq> []" "\<not> is_space (hd s)" "\<not> is_space (last s)"
  then have 1: "dropWhile is_space s = s" by (cases s) auto
  have "rev s \<noteq> []" "\<not> is_space (hd (rev s))" using a by (auto simp: hd_rev)
  then have "dropWhile is_space (rev s) = rev s" by (cases "rev s") auto
  then show ?thesis using 1 by (simp add: trim_def)
qed

lemma digit_not_space: "is_digit c \<Longrightarrow> \<not> is_space c"
  by (auto simp: is_digit_def is_space_def)

lemma digits_ends:
  assumes "list_all is_digit ds" "ds \<noteq> []"
  shows "is_digit (hd ds)" "is_digit (last ds)"
  using assms by (auto simp: list_all_iff)

lemma Number_js_digits:
  assumes "list_all is_digit ds" "ds \<noteq> []"
  shows "Number_js (Some ds) = Num (digits_val ds)"
proof -
  have t: "trim ds = ds"
    using assms digits_ends digit_not_space by (intro trim_id) auto
  have "is_digit (hd ds)" using assms digits_ends by auto
  then have "hd ds \<noteq> CHR ''-''" "hd ds \<noteq> CHR ''+''" by (auto simp: is_digit_def)
  then have "take 1 ds \<noteq> ''-''" "take 1 ds \<noteq> ''+''" using assms(2) by (cases ds; simp)+
  then show ?thesis using assms t by (simp add: Number_js_def)
qed

lemma Number_js_minus_digits:
  assumes "list_all is_digit ds" "ds \<noteq> []"
  shows "Number_js (Some (CHR ''-'' # ds)) = Num (- digits_val ds)"
proof -
  have "\<not> is_space (last ds)" using assms digits_ends digit_not_space by auto
  then have t: "trim (CHR ''-'' # ds) = CHR ''-'' # ds"
    using assms(2) by (intro trim_id) (auto simp: is_space_def)
  show ?thesis using assms by (simp add: Number_js_def t)
qed

lemma digit_val_nonneg: "is_digit d \<Longrightarrow> 0 \<le> digit_val d"
  by (auto simp: is_digit_def digit_val_def)

lemma digits_val_nonneg_aux:
  "list_all is_digit ds \<Longrightarrow> 0 \<le> a \<Longrightarrow> 0 \<le> foldl (\<lambda>a c. 10 * a + digit_val c) a ds"
proof (induction ds arbitrary: a)
  case Nil then show ?case by simp
next
  case (Cons d ds)
  have "0 \<le> digit_val d" using Cons.prems(1) by (simp add: digit_val_nonneg)
  then have "0 \<le> 10 * a + digit_val d" using Cons.prems(2) by simp
  moreover have "list_all is_digit ds" using Cons.prems(1) by simp
  ultimately have "0 \<le> foldl (\<lambda>a c. 10 * a + digit_val c) (10 * a + digit_val d) ds"
    by (rule Cons.IH[rotated])
  then show ?case by simp
qed

lemma digits_val_nonneg: "list_all is_digit ds \<Longrightarrow> 0 \<le> digits_val ds"
  unfolding digits_val_def by (rule digits_val_nonneg_aux) simp_all


section \<open>The line parser on the default pattern\<close>

text \<open>
  C2 (as amended). Every line made of a line number, a column with an optional minus sign, a
  type, a code and a message in the format of the default pattern, with an optional line
  terminator, is parsed: \<open>parseLine\<close> returns a message whose line, code, message and type
  are the fields of the line, unchanged. When the raw column \<open>c\<close> is positive the column is
  \<open>c - colOffset\<close>, with no clamp after the subtraction; when it is not positive the column
  is 0 and the offset is not applied. The numbers have at most 15 digits, where
  \<^verbatim>\<open>Number\<close> is exact.
\<close>

theorem parseLine_default_pattern:
  assumes "list_all is_digit ls" "ls \<noteq> []" "length ls \<le> 15"
    and "sg = [] \<or> sg = ''-''" "list_all is_digit cs" "cs \<noteq> []" "length cs \<le> 15"
    and "list_all is_word t" "t \<noteq> []"
    and "list_all is_word w" "w \<noteq> []" "is_digit z"
    and "list_all is_dot m" "e \<in> {[], [CR], [LF], [CR, LF]}"
  shows "parseLine (ls @ CHR '','' # sg @ cs @ CHR '','' # t @ CHR '','' # w @ z # CHR '':'' # m @ e)
           (Pattern REGEX) linterID colOffset =
         Inr (Some \<lparr>
           line = Num (digits_val ls),
           column = (if sg = [] \<and> 0 < digits_val cs then Num (digits_val cs - colOffset) else Num 0),
           code = Some (w @ [z]), message = Some m, type = Some t,
           provider = linterID, file_path = None \<rparr>)"
proof -
  have ex: "rx_exec REGEX (ls @ CHR '','' # sg @ cs @ CHR '','' # t @ CHR '','' # w @ z # CHR '':'' # m @ e) =
           Some [''line'' \<mapsto> ls, ''column'' \<mapsto> sg @ cs, ''type'' \<mapsto> t, ''code'' \<mapsto> w @ [z], ''message'' \<mapsto> m]"
    using assms by (intro rx_exec_REGEX)
  have l: "Number_js (Some ls) = Num (digits_val ls)"
    using assms by (intro Number_js_digits)
  have c: "Number_js (Some (sg @ cs)) = Num (if sg = [] then digits_val cs else - digits_val cs)"
    using assms(4,5,6) Number_js_digits Number_js_minus_digits by auto
  have nn: "0 \<le> digits_val cs" using assms(5) by (rule digits_val_nonneg)
  show ?thesis
    unfolding parseLine_def matchNamedRegEx_def using nn
    by (simp only: ex pattern.case sum.case option.case Let_def) (simp add: l c)
qed


theorem parseLine_default_pattern_witness:
  "parseLine ''12,7,Error,E501:line too long'' (Pattern REGEX) ''pylint'' 1 =
     Inr (Some \<lparr>line = Num 12, column = Num 6, code = Some ''E501'',
                 message = Some ''line too long'', type = Some ''Error'',
                 provider = ''pylint'', file_path = None\<rparr>)"
  using parseLine_default_pattern[of "''12''" "[]" "''7''" "''Error''" "''E50''" "CHR ''1''"
          "''line too long''" "[]" "''pylint''" 1]
  by (simp add: is_digit_def is_word_def is_dot_def digits_val_def digit_val_def LF_def CR_def)

text \<open>
  C2 as stated fails: with the raw column 1 and the offset 5 the column is \<open>-4\<close>, not
  \<open>max (1 - 5) 0\<close>.
\<close>

theorem parseLine_column_clamp_counterexample:
  "parseLine ''1,1,E,E1:m'' (Pattern REGEX) ''pylint'' 5 =
     Inr (Some \<lparr>line = Num 1, column = Num (- 4), code = Some ''E1'', message = Some ''m'',
                 type = Some ''E'', provider = ''pylint'', file_path = None\<rparr>)
   \<and> Num (- 4) \<noteq> Num (max (1 - 5) 0)"
  by code_simp

text \<open>The scenario of the specification: a negative column is clamped to 0.\<close>

lemma parseLine_scenario:
  "parseLine ''12,-1,Error,E501:line too long'' (Pattern REGEX) ''pylint'' 0 =
     Inr (Some \<lparr>line = Num 12, column = Num 0, code = Some ''E501'',
                 message = Some ''line too long'', type = Some ''Error'',
                 provider = ''pylint'', file_path = None\<rparr>)"
  by code_simp

text \<open>
  The pattern is not anchored: the match starts at the first position where one exists, so
  text before the line number is skipped.
\<close>

lemma parseLine_not_anchored:
  "parseLine ''x12,7,Error,E501:line too long'' (Pattern REGEX) ''pylint'' 0 =
     Inr (Some \<lparr>line = Num 12, column = Num 7, code = Some ''E501'',
                 message = Some ''line too long'', type = Some ''Error'',
                 provider = ''pylint'', file_path = None\<rparr>)"
  by code_simp


section \<open>The loop of parseMessages\<close>

lemma matched_Nil: "matched L regEx [] = []"
  by (simp add: matched_def map_filter_simps)

lemma matched_Cons:
  "matched L regEx (ln # ls) =
     (case parseLine ln regEx (info_id L) (columnOffset L) of
        Inr (Some m) \<Rightarrow> m # matched L regEx ls
      | _ \<Rightarrow> matched L regEx ls)"
  by (simp add: matched_def map_filter_simps split: sum.splits option.splits)

lemma loop_take:
  "fst (parseMessages_loop L regEx ls msgs chan) =
     msgs @ take (nat (max 1 (maxNumberOfProblems L - int (length msgs)))) (matched L regEx ls)"
proof (induction ls arbitrary: msgs chan)
  case Nil
  then show ?case by (simp add: matched_Nil)
next
  case (Cons ln ls)
  show ?case
  proof (cases "parseLine ln regEx (info_id L) (columnOffset L)")
    case (Inl e)
    then show ?thesis using Cons by (simp add: matched_Cons)
  next
    case (Inr r)
    show ?thesis
    proof (cases r)
      case None
      then show ?thesis using Inr Cons by (simp add: matched_Cons)
    next
      case (Some m)
      show ?thesis
      proof (cases "int (length (msgs @ [m])) \<ge> maxNumberOfProblems L")
        case True
        then have "nat (max 1 (maxNumberOfProblems L - int (length msgs))) = 1" by simp
        then show ?thesis using True Some Inr by (simp add: matched_Cons Let_def)
      next
        case False
        then have "nat (max 1 (maxNumberOfProblems L - int (length msgs))) = Suc (nat (max 1 (maxNumberOfProblems L - int (length (msgs @ [m])))))" by simp
        then show ?thesis using False Some Inr Cons[of "msgs @ [m]" chan] by (simp add: matched_Cons Let_def)
      qed
    qed
  qed
qed

lemma parseMessages_take:
  "fst (parseMessages L output regEx chan) =
     take (nat (max 1 (maxNumberOfProblems L))) (matched L regEx (splitLines output False False))"
  by (simp add: parseMessages_def loop_take)






text \<open>
  For a maximum of at least 1 the result holds at most that many messages: the first ones.
\<close>

lemma parseMessages_at_most:
  "1 \<le> maxNumberOfProblems L \<Longrightarrow>
   int (length (fst (parseMessages L output regEx chan))) \<le> maxNumberOfProblems L"
  by (simp add: parseMessages_take)

text \<open>
  C3. \<open>parseMessages\<close> returns at most the configured maximum of messages. The code checks
  the count only after it has pushed a message, so with the maximum 0 it returns one message
  for an output of one matching line.
\<close>

theorem parseMessages_max_zero:
  "length (fst (parseMessages (example_linter\<lparr>maxNumberOfProblems := 0\<rparr>) ''1,1,E,E1:m'' (Pattern REGEX) [])) = 1"
  by code_simp











section \<open>The run of a linter\<close>

text \<open>
  C7. When the execution of the tool fails, \<open>run\<close> returns the empty sequence and does not
  throw; for an enabled linter the failure is written to the output channel, after the lines
  that announce the run.
\<close>

theorem run_exec_failure:
  "fst (run L (Inl error) regEx chan) = Inr [] \<and>
   (info_isEnabled L \<longrightarrow>
      snd (run L (Inl error) regEx chan) =
        (let chan1 = appendLine chan (hashes @ '' Run linter '' @ info_id L @ '':'');
             chan2 = appendLine chan1 (executionInfo_json L);
             chan3 = appendLine chan2 [];
             chan4 = appendLine chan3 (''Linting with '' @ info_id L @ '' failed:'')
         in case error of ErrorObj m \<Rightarrow> appendLine chan4 m | _ \<Rightarrow> chan4))"
  by (simp add: run_def run_try_def Let_def)

theorem run_exec_failure_witness:
  "fst (run example_linter (Inl (ErrorObj ''spawn pylint ENOENT'')) (Pattern REGEX) []) = Inr [] \<and>
   snd (run example_linter (Inl (ErrorObj ''spawn pylint ENOENT'')) (Pattern REGEX) []) =
     ''########## Run linter pylint:'' @ [LF] @ ''{}'' @ [LF] @ [LF] @
     ''Linting with pylint failed:'' @ [LF] @ ''spawn pylint ENOENT'' @ [LF]"
  using run_exec_failure[of example_linter "ErrorObj ''spawn pylint ENOENT''" "Pattern REGEX" "[]"]
  by (simp add: example_linter_def appendLine_def hashes_def Let_def eval_nat_numeral)

section \<open>The refactor session: responses on stdout\<close>

lemma onData_pending:
  assumes "commandResolve p = Some c" "parse_records JSON_parse (previousOutData p @ data) = None"
  shows "onData JSON_parse p data = (p\<lparr>previousOutData := previousOutData p @ data\<rparr>, [])"
  using assms by (simp add: onData_def Let_def)

lemma onData_complete:
  assumes "commandResolve p = Some c" "c \<notin> set (settled p)"
    and "parse_records JSON_parse (previousOutData p @ data) = Some response"
  shows "onData JSON_parse p data =
           (p\<lparr>previousOutData := [], process := None, commandResolve := None,
               settled := c # settled p\<rparr>,
            (case process p of None \<Rightarrow> [] | Some h \<Rightarrow> [Kill h]) @
            [CommandResolved c (first_record response)])"
  using assms by (simp add: onData_def Let_def dispose_def settle_def)

lemma on_output_started:
  "startedSuccessfully p \<Longrightarrow> on_output JSON_parse p stdout out = onData JSON_parse p out"
  by (simp add: on_output_def)

lemma on_chunks_append:
  "on_chunks JSON_parse p (xs @ ys) =
     (let (p1, e1) = on_chunks JSON_parse p xs;
          (p2, e2) = on_chunks JSON_parse p1 ys
      in (p2, e1 @ e2))"
  by (induction xs arbitrary: p) (auto simp: Let_def split: prod.splits)

lemma on_chunks_pending:
  assumes "commandResolve p = Some c" "startedSuccessfully p"
    and "\<forall>n \<in> {1..length chunks}.
           parse_records JSON_parse (previousOutData p @ concat (take n chunks)) = None"
  shows "on_chunks JSON_parse p chunks =
           (p\<lparr>previousOutData := previousOutData p @ concat chunks\<rparr>, [])"
  using assms
proof (induction chunks arbitrary: p)
  case Nil
  then show ?case by simp
next
  case (Cons chunk chunks)
  let ?p1 = "p\<lparr>previousOutData := previousOutData p @ chunk\<rparr>"
  have "parse_records JSON_parse (previousOutData p @ concat (take 1 (chunk # chunks))) = None"
    using Cons.prems(3) by (intro bspec[OF Cons.prems(3)]) simp
  then have first: "on_output JSON_parse p stdout chunk = (?p1, [])"
    using Cons.prems by (simp add: on_output_started onData_pending)
  have "\<forall>n \<in> {1..length chunks}.
           parse_records JSON_parse (previousOutData ?p1 @ concat (take n chunks)) = None"
  proof
    fix n assume "n \<in> {1..length chunks}"
    then have "Suc n \<in> {1..length (chunk # chunks)}" by simp
    then have "parse_records JSON_parse (previousOutData p @ concat (take (Suc n) (chunk # chunks))) = None"
      using Cons.prems(3) by blast
    then show "parse_records JSON_parse (previousOutData ?p1 @ concat (take n chunks)) = None"
      by simp
  qed
  then have "on_chunks JSON_parse ?p1 chunks =
           (?p1\<lparr>previousOutData := previousOutData ?p1 @ concat chunks\<rparr>, [])"
    using Cons.prems by (intro Cons.IH) simp_all
  then show ?case using first by simp
qed

text \<open>
  A session that has started and has a command pending (its promise not settled) receives
  stdout chunks. While the buffer with the chunks received so far has a non-empty line that
  does not parse, the command stays pending, nothing is delivered and the buffer holds all the
  chunks. With the chunk that makes every non-empty line parse, the buffer is cleared, the
  subprocess is killed and the promise of the command is resolved with the first record, if
  there is one.
\<close>

lemma split_response_parsed_once_complete:
  assumes "commandResolve p = Some c" "startedSuccessfully p" "c \<notin> set (settled p)"
    and "\<forall>n \<in> {1..length chunks}.
           parse_records JSON_parse (previousOutData p @ concat (take n chunks)) = None"
  shows "on_chunks JSON_parse p chunks =
           (p\<lparr>previousOutData := previousOutData p @ concat chunks\<rparr>, []) \<and>
         (parse_records JSON_parse (previousOutData p @ concat chunks @ final) = Some response \<longrightarrow>
          on_chunks JSON_parse p (chunks @ [final]) =
            (p\<lparr>previousOutData := [], process := None, commandResolve := None,
                settled := c # settled p\<rparr>,
             (case process p of None \<Rightarrow> [] | Some h \<Rightarrow> [Kill h]) @
             [CommandResolved c (first_record response)]))"
proof -
  let ?p1 = "p\<lparr>previousOutData := previousOutData p @ concat chunks\<rparr>"
  have pend: "on_chunks JSON_parse p chunks = (?p1, [])"
    using assms by (intro on_chunks_pending) auto
  have "on_chunks JSON_parse p (chunks @ [final]) =
            (p\<lparr>previousOutData := [], process := None, commandResolve := None,
                settled := c # settled p\<rparr>,
             (case process p of None \<Rightarrow> [] | Some h \<Rightarrow> [Kill h]) @
             [CommandResolved c (first_record response)])"
    if fin: "parse_records JSON_parse (previousOutData p @ concat chunks @ final) = Some response"
  proof -
    have "onData JSON_parse ?p1 final =
           (?p1\<lparr>previousOutData := [], process := None, commandResolve := None,
               settled := c # settled ?p1\<rparr>,
            (case process ?p1 of None \<Rightarrow> [] | Some h \<Rightarrow> [Kill h]) @
            [CommandResolved c (first_record response)])"
      using assms fin by (intro onData_complete) simp_all
    then show ?thesis
      using pend assms(2) by (simp add: on_chunks_append on_output_started)
  qed
  then show ?thesis using pend by blast
qed

text \<open>The response of the scenario, split across two chunks.\<close>

lemma split_response_example:
  \<open>on_chunks json_parse (busy json_parse ''{}'') [''{"results"''] =
     ((busy json_parse ''{}'')\<lparr>previousOutData := ''{"results"''\<rparr>, []) \<and>
   on_chunks json_parse (busy json_parse ''{}'') [''{"results"'', '':[{"diff":"x"}]}'' @ [LF]] =
     ((busy json_parse ''{}'')\<lparr>previousOutData := [], process := None, commandResolve := None,
         settled := [0, 1]\<rparr>,
      [Kill 2, CommandResolved 0 (Some results_x)])\<close>
proof -
  let ?p = "busy json_parse ''{}''"
  have b: "commandResolve ?p = Some 0" "startedSuccessfully ?p" "settled ?p = [1]"
    "previousOutData ?p = []" "process ?p = Some 2"
    by code_simp+
  have part: \<open>parse_records json_parse (''{"results"'') = None\<close>
    by code_simp
  have full: \<open>parse_records json_parse (''{"results"'' @ '':[{"diff":"x"}]}'' @ [LF]) = Some [results_x]\<close>
    by code_simp
  have nset: "0 \<notin> set (settled ?p)" using b by simp
  have h4: \<open>\<forall>n \<in> {1..length [''{"results"'']}.
           parse_records json_parse (previousOutData ?p @ concat (take n [''{"results"''])) = None\<close>
    using b(4) part by simp
  have full': \<open>parse_records json_parse
      (previousOutData ?p @ concat [''{"results"''] @ ('':[{"diff":"x"}]}'' @ [LF])) = Some [results_x]\<close>
    using b(4) full by simp
  from split_response_parsed_once_complete[OF b(1) b(2) nset h4] full'
  have \<open>on_chunks json_parse ?p [''{"results"''] =
           (?p\<lparr>previousOutData := previousOutData ?p @ concat [''{"results"'']\<rparr>, []) \<and>
        on_chunks json_parse ?p ([''{"results"''] @ ['':[{"diff":"x"}]}'' @ [LF]]) =
            (?p\<lparr>previousOutData := [], process := None, commandResolve := None,
                settled := 0 # settled ?p\<rparr>,
             (case process ?p of None \<Rightarrow> [] | Some h \<Rightarrow> [Kill h]) @
             [CommandResolved 0 (first_record [results_x])])\<close>
    by blast
  then show ?thesis
    using b by (simp add: first_record_def del: on_chunks.simps)
qed

text \<open>
  C1. A response is complete only when the buffer yields parsed records, and until then the
  command stays pending. The code also completes the command when the buffer holds no
  non-empty line: the split of a line break alone gives no line, nothing throws, and the
  command is resolved with \<^verbatim>\<open>undefined\<close> and the subprocess killed. This is what happens
  when the ready sentinel arrives as \<^verbatim>\<open>STARTED\<close> and then its line break in a chunk of its
  own.
\<close>

theorem blank_line_resolves_command_without_record:
  "on_chunks json_parse (starting ''{}'') [''STARTED'', [LF]] =
     ((starting ''{}'')\<lparr>startedSuccessfully := True, suspended := [], process := None,
         commandResolve := None, commandReject := Some 0, settled := [0, 1]\<rparr>,
      [InitResolved 1, StdinWrite 2 (''{}'' @ [LF]), Kill 2, CommandResolved 0 None]) \<and>
   parse_records json_parse [LF] = Some []"
  by code_simp

text \<open>The same on a session that is busy: a chunk that is a line break alone.\<close>

lemma blank_chunk_resolves_undefined:
  "on_output json_parse (busy json_parse ''{}'') stdout [LF] =
     ((busy json_parse ''{}'')\<lparr>process := None, commandResolve := None, settled := [0, 1]\<rparr>,
      [Kill 2, CommandResolved 0 None])"
  by code_simp

section \<open>The refactor session: error records on stderr\<close>

lemma split_lines_not_Nil: "split_lines s \<noteq> []"
  by (induction s rule: split_lines.induct) (auto split: list.splits)

lemma traceback_summary_string:
  "traceback_summary (Some (JString tb)) = Inr (last (split_lines tb))"
  using split_lines_not_Nil[of tb]
  by (cases "split_lines tb") (simp_all add: traceback_summary_def splitLines_def)

lemma error_message_no_message:
  assumes "js_get first ''message'' = Inr m" "\<forall>s. m = Some (JString s) \<longrightarrow> s = []"
    and "js_get first ''traceback'' = Inr (Some (JString tb))"
  shows "error_message first = Inr (last (split_lines tb) @ [LF] @ tb)"
proof -
  have "(case m of Some (JString s) \<Rightarrow> if length s = 0 then traceback_summary (Some (JString tb)) else Inr s
          | _ \<Rightarrow> traceback_summary (Some (JString tb))) = Inr (last (split_lines tb))"
    using assms(2) by (auto simp: traceback_summary_string split: option.splits json.splits)
  then show ?thesis
    using assms(1,3) by (simp add: error_message_def js_to_string_opt_def)
qed

lemma handleStdError_parsed:
  assumes "parse_records JSON_parse (previousStdErrData p @ data) = Some (r # rs)"
    and "error_message (Some r) = Inr msg"
  shows "handleStdError JSON_parse p data =
           (if startedSuccessfully p
            then call_commandReject (p\<lparr>previousStdErrData := []\<rparr>)
                   (ThrownString (''Refactor failed. '' @ msg))
            else if js_get (Some r) ''type'' = Inr (Some (JString ''ModuleNotFoundError''))
            then reject_initialized (p\<lparr>previousStdErrData := []\<rparr>) (ThrownString ''Not installed'')
            else reject_initialized (p\<lparr>previousStdErrData := []\<rparr>)
                   (ThrownString (''Refactor failed. '' @ msg)))"
  using assms by (simp add: handleStdError_def Let_def first_record_def)

lemma reject_initialized_first:
  assumes "initialized p = Some d" "d \<notin> set (settled p)"
  shows "\<exists>p' effs. reject_initialized p r = (p', InitRejected d r # effs)"
  using assms by (simp add: reject_initialized_def Let_def split: prod.splits)

text \<open>
  C4 (as amended). Before the ready sentinel, a complete error record on stderr whose message
  can be formatted rejects the startup; the reason is \<^verbatim>\<open>Not installed\<close> exactly when the
  field \<^verbatim>\<open>type\<close> of the record is the string \<^verbatim>\<open>ModuleNotFoundError\<close>, and the generic
  \<^verbatim>\<open>Refactor failed.\<close> with the formatted message otherwise.
\<close>

theorem module_not_found_by_type_tag:
  assumes "\<not> startedSuccessfully p" "initialized p = Some d" "d \<notin> set (settled p)"
    and "parse_records JSON_parse (previousStdErrData p @ data) = Some (r # rs)"
    and "error_message (Some r) = Inr msg"
  shows "\<exists>p' effs. handleStdError JSON_parse p data =
           (p', InitRejected d (ThrownString
                  (if js_get (Some r) ''type'' = Inr (Some (JString ''ModuleNotFoundError''))
                   then ''Not installed'' else ''Refactor failed. '' @ msg)) # effs)"
proof -
  let ?p = "p\<lparr>previousStdErrData := []\<rparr>"
  have i: "initialized ?p = Some d" "d \<notin> set (settled ?p)" using assms by simp_all
  show ?thesis
    using handleStdError_parsed[OF assms(4,5)] assms(1)
      reject_initialized_first[OF i, of "ThrownString ''Not installed''"]
      reject_initialized_first[OF i, of "ThrownString (''Refactor failed. '' @ msg)"]
    by auto
qed

theorem module_not_found_by_type_tag_witness:
  "\<exists>p' effs. handleStdError json_parse (starting ''{}'') tagged_record =
           (p', InitRejected 1 (ThrownString ''Not installed'') # effs)"
proof -
  let ?p = "starting ''{}''"
  have a: "\<not> startedSuccessfully ?p" "initialized ?p = Some 1" "1 \<notin> set (settled ?p)"
    by code_simp+
  have b: "parse_records json_parse (previousStdErrData ?p @ tagged_record) = Some (tagged_json # [])"
    by code_simp
  have c: "error_message (Some tagged_json) =
      Inr (''ModuleNotFoundError: no module rope'' @ [LF] @ ''Traceback...'' @ [LF] @ ''ModuleNotFoundError: no module rope'')"
    by code_simp
  have d: "js_get (Some tagged_json) ''type'' = Inr (Some (JString ''ModuleNotFoundError''))"
    by code_simp
  show ?thesis
    using module_not_found_by_type_tag[OF a b c] d by simp
qed

text \<open>
  C4 as stated fails: the record of the scenario has no field \<^verbatim>\<open>type\<close>, and the startup
  (with the call that waits for it) is rejected with the generic failure.
\<close>

theorem module_not_found_scenario_counterexample:
  "snd (handleStdError json_parse (starting ''{}'') scenario_record) =
     [InitRejected 1 (ThrownString (''Refactor failed. ModuleNotFoundError: no module rope'' @ [LF] @
         ''Traceback...'' @ [LF] @ ''ModuleNotFoundError: no module rope'')),
      CommandRejected 0 (ThrownString (''Refactor failed. ModuleNotFoundError: no module rope'' @ [LF] @
         ''Traceback...'' @ [LF] @ ''ModuleNotFoundError: no module rope''))]"
  by code_simp

text \<open>
  C5 (as amended). After the start, with the reject function of a command stored and its
  promise not settled, a complete error record whose message is absent, not a string or empty
  and whose traceback is a string rejects the command with \<^verbatim>\<open>Refactor failed.\<close> followed
  by the last line of the traceback, a newline and the traceback.
\<close>

theorem command_rejected_with_traceback_summary:
  assumes "startedSuccessfully p" "commandReject p = Some c" "c \<notin> set (settled p)"
    and "parse_records JSON_parse (previousStdErrData p @ data) = Some (r # rs)"
    and "js_get (Some r) ''message'' = Inr m" "\<forall>s. m = Some (JString s) \<longrightarrow> s = []"
    and "js_get (Some r) ''traceback'' = Inr (Some (JString tb))"
  shows "handleStdError JSON_parse p data =
           (p\<lparr>previousStdErrData := [], settled := c # settled p\<rparr>,
            [CommandRejected c
               (ThrownString (''Refactor failed. '' @ last (split_lines tb) @ [LF] @ tb))])"
proof -
  have "error_message (Some r) = Inr (last (split_lines tb) @ [LF] @ tb)"
    using assms(5,6,7) by (rule error_message_no_message)
  then show ?thesis
    using handleStdError_parsed[OF assms(4)] assms(1,2,3)
    by (simp add: call_commandReject_def settle_def)
qed

theorem command_rejected_with_traceback_summary_witness:
  "handleStdError json_parse (busy json_parse ''{}'') two_line_record =
     ((busy json_parse ''{}'')\<lparr>previousStdErrData := [], settled := [0, 1]\<rparr>,
      [CommandRejected 0 (ThrownString (''Refactor failed. B'' @ [LF] @ ''A'' @ [LF] @ ''B''))])"
proof -
  let ?p = "busy json_parse ''{}''"
  let ?r = "JObject [(''traceback'', JString (''A'' @ [LF] @ ''B''))]"
  have a: "startedSuccessfully ?p" "commandReject ?p = Some 0" "0 \<notin> set (settled ?p)"
    by code_simp+
  have s: "settled ?p = [1]" by code_simp
  have b: "parse_records json_parse (previousStdErrData ?p @ two_line_record) = Some (?r # [])"
    by code_simp
  have c: "js_get (Some ?r) ''message'' = Inr None" by code_simp
  have d: "js_get (Some ?r) ''traceback'' = Inr (Some (JString (''A'' @ [LF] @ ''B'')))" by code_simp
  have e: "last (split_lines (''A'' @ [LF] @ ''B'')) = ''B''" by code_simp
  show ?thesis
    using command_rejected_with_traceback_summary[OF a b c _ d] s e by simp
qed

text \<open>
  C5 as stated fails: for the traceback of the lines A and B the summary is B, the last line,
  and the message starts with \<^verbatim>\<open>Refactor failed.\<close>.
\<close>

theorem traceback_first_line_counterexample:
  "snd (handleStdError json_parse (busy json_parse ''{}'') two_line_record) =
     [CommandRejected 0 (ThrownString (''Refactor failed. B'' @ [LF] @ ''A'' @ [LF] @ ''B''))]
   \<and> ''Refactor failed. B'' @ [LF] @ ''A'' @ [LF] @ ''B'' \<noteq> ''A'' @ [LF] @ ''A'' @ [LF] @ ''B''"
  by code_simp

text \<open>The scenario with a line break inside the record instead of the escape: nothing parses.\<close>

lemma scenario_with_raw_newline:
  \<open>handleStdError json_parse (starting ''{}'')
      (''{"message":"","traceback":"Traceback...'' @ [LF] @ ''ModuleNotFoundError: no module rope"}'') =
    ((starting ''{}'')\<lparr>previousStdErrData :=
        ''{"message":"","traceback":"Traceback...'' @ [LF] @ ''ModuleNotFoundError: no module rope"}''\<rparr>,
     [ConsoleError])\<close>
  by code_simp


section \<open>One command for each session\<close>

lemma writes_simps [simp]:
  "writes [] = 0"
  "writes (e # es) = (if is_write e then Suc (writes es) else writes es)"
  "writes (xs @ ys) = writes xs + writes ys"
  by (simp_all add: writes_def)

lemma step_ok_settle:
  "\<not> is_write e \<Longrightarrow> step_ok p (settle p i e)"
  by (simp add: step_ok_def settle_def)

lemma settle_frame:
  "issued (fst (settle p i e)) = issued p"
  "suspended (fst (settle p i e)) = suspended p"
  "commandResolve (fst (settle p i e)) = commandResolve p"
  "commandReject (fst (settle p i e)) = commandReject p"
  "process (fst (settle p i e)) = process p"
  "\<not> is_write e \<Longrightarrow> writes (snd (settle p i e)) = 0"
  by (simp_all add: settle_def)

lemma resume_commands_frame:
  "issued (fst (resume_commands ws p)) = issued p \<and>
   suspended (fst (resume_commands ws p)) = suspended p \<and>
   (\<forall>c. commandResolve (fst (resume_commands ws p)) = Some c \<longrightarrow>
        commandResolve p = Some c \<or> c \<in> promises ws) \<and>
   (\<forall>c. commandReject (fst (resume_commands ws p)) = Some c \<longrightarrow>
        commandReject p = Some c \<or> c \<in> promises ws) \<and>
   writes (snd (resume_commands ws p)) \<le> length ws"
proof (induction ws arbitrary: p)
  case Nil
  then show ?case by simp
next
  case (Cons w ws)
  obtain d command c where w: "w = (d, command, c)" by (cases w) auto
  let ?p1 = "p\<lparr>commandResolve := Some c, commandReject := Some c\<rparr>"
  let ?r = "case process ?p1 of
              None \<Rightarrow> settle ?p1 c (CommandRejected c type_error)
            | Some h \<Rightarrow> (?p1, [StdinWrite h (command @ [LF])])"
  have r: "issued (fst ?r) = issued p" "suspended (fst ?r) = suspended p"
    "commandResolve (fst ?r) = Some c" "commandReject (fst ?r) = Some c"
    "writes (snd ?r) \<le> 1"
    by (auto simp: settle_def is_write_def split: option.splits)
  have eq: "resume_commands (w # ws) p =
          (fst (resume_commands ws (fst ?r)), snd ?r @ snd (resume_commands ws (fst ?r)))"
    by (simp add: w Let_def split: prod.splits option.splits)
  show ?case
    using Cons.IH[of "fst ?r"] r unfolding eq
    by (auto simp: promises_def w)
qed

lemma fail_commands_frame:
  "issued (fst (fail_commands ws r p)) = issued p \<and>
   suspended (fst (fail_commands ws r p)) = suspended p \<and>
   commandResolve (fst (fail_commands ws r p)) = commandResolve p \<and>
   commandReject (fst (fail_commands ws r p)) = commandReject p \<and>
   writes (snd (fail_commands ws r p)) = 0"
proof (induction ws arbitrary: p)
  case Nil
  then show ?case by simp
next
  case (Cons w ws)
  obtain d command c where w: "w = (d, command, c)" by (cases w) auto
  let ?r = "settle p c (CommandRejected c r)"
  have eq: "fail_commands (w # ws) r p =
          (fst (fail_commands ws r (fst ?r)), snd ?r @ snd (fail_commands ws r (fst ?r)))"
    by (simp add: w Let_def split: prod.splits)
  show ?case
    using Cons.IH[of "fst ?r"] unfolding eq
    by (simp add: settle_frame is_write_def)
qed

lemma filter_split_length:
  "length (filter P xs) + length (filter (\<lambda>x. \<not> P x) xs) = length xs"
  by (induction xs) auto

lemma step_ok_resolve_initialized: "step_ok p (resolve_initialized p)"
proof (cases "initialized p")
  case None
  then show ?thesis by (simp add: resolve_initialized_def step_ok_def is_write_def)
next
  case (Some d)
  show ?thesis
  proof (cases "d \<in> set (settled p)")
    case True
    then show ?thesis using Some by (simp add: resolve_initialized_def step_ok_def)
  next
    case False
    let ?ws = "filter (\<lambda>(d1, command, c). d1 = d) (suspended p)"
    let ?p1 = "p\<lparr>settled := d # settled p,
                  suspended := filter (\<lambda>(d1, command, c). d1 \<noteq> d) (suspended p)\<rparr>"
    have eq: "resolve_initialized p =
        (fst (resume_commands ?ws ?p1), InitResolved d # snd (resume_commands ?ws ?p1))"
      using Some False by (simp add: resolve_initialized_def Let_def split: prod.splits)
    have len: "length ?ws + length (filter (\<lambda>(d1, command, c). d1 \<noteq> d) (suspended p)) = length (suspended p)"
      using filter_split_length[of "\<lambda>(d1, command, c). d1 = d" "suspended p"]
      by (simp add: case_prod_unfold)
    have sub: "promises ?ws \<subseteq> promises (suspended p)" by (auto simp: promises_def)
    show ?thesis
      using resume_commands_frame[of ?ws ?p1] len sub unfolding eq step_ok_def
      by (auto simp: is_write_def)
  qed
qed

lemma step_ok_reject_initialized: "step_ok p (reject_initialized p r)"
proof (cases "initialized p")
  case None
  then show ?thesis by (simp add: reject_initialized_def step_ok_def is_write_def)
next
  case (Some d)
  show ?thesis
  proof (cases "d \<in> set (settled p)")
    case True
    then show ?thesis using Some by (simp add: reject_initialized_def step_ok_def)
  next
    case False
    let ?ws = "filter (\<lambda>(d1, command, c). d1 = d) (suspended p)"
    let ?p1 = "p\<lparr>settled := d # settled p,
                  suspended := filter (\<lambda>(d1, command, c). d1 \<noteq> d) (suspended p)\<rparr>"
    have eq: "reject_initialized p r =
        (fst (fail_commands ?ws r ?p1), InitRejected d r # snd (fail_commands ?ws r ?p1))"
      using Some False by (simp add: reject_initialized_def Let_def split: prod.splits)
    show ?thesis
      using fail_commands_frame[of ?ws r ?p1] unfolding eq step_ok_def
      by (auto simp: is_write_def)
  qed
qed

lemma step_ok_call_commandReject: "step_ok p (call_commandReject p r)"
  by (auto simp: call_commandReject_def step_ok_def settle_def is_write_def split: option.splits)

lemma step_ok_field_update:
  "step_ok (p\<lparr>previousStdErrData := x\<rparr>) r \<Longrightarrow> step_ok p r"
  "step_ok (p\<lparr>startedSuccessfully := b\<rparr>) r \<Longrightarrow> step_ok p r"
  by (simp_all add: step_ok_def)

lemma step_ok_onData: "step_ok p (onData JSON_parse p data)"
  by (auto simp: onData_def step_ok_def Let_def dispose_def settle_def is_write_def
           split: option.splits)

lemma step_ok_handleStdError: "step_ok p (handleStdError JSON_parse p data)"
proof (cases "parse_records JSON_parse (previousStdErrData p @ data)")
  case None
  then show ?thesis by (simp add: handleStdError_def step_ok_def Let_def is_write_def)
next
  case (Some rs)
  let ?p2 = "p\<lparr>previousStdErrData := []\<rparr>"
  show ?thesis
  proof (cases "error_message (first_record rs)")
    case (Inl e)
    then show ?thesis using Some by (simp add: handleStdError_def step_ok_def Let_def is_write_def)
  next
    case (Inr m)
    have "step_ok ?p2 (handleStdError JSON_parse p data)"
      using Some Inr step_ok_call_commandReject[of ?p2] step_ok_reject_initialized[of ?p2]
      by (simp add: handleStdError_def Let_def)
    then show ?thesis by (rule step_ok_field_update)
  qed
qed

lemma step_ok_handleError: "step_ok p (handleError p error)"
  by (simp add: handleError_def step_ok_call_commandReject step_ok_reject_initialized)

lemma step_ok_on_output: "step_ok p (on_output JSON_parse p src out)"
proof -
  have "step_ok p (resolve_initialized (p\<lparr>startedSuccessfully := True\<rparr>))"
    using step_ok_resolve_initialized[of "p\<lparr>startedSuccessfully := True\<rparr>"]
    by (rule step_ok_field_update)
  then show ?thesis
    by (simp add: on_output_def step_ok_onData step_ok_handleStdError)
qed

lemma singleton_member: "length xs = Suc 0 \<Longrightarrow> c \<in> set xs \<Longrightarrow> xs = [c]"
  by (cases xs) auto

lemma single_command_step:
  assumes "single_command p" "step_ok p r"
  shows "single_command (fst r)"
proof -
  have len: "length (issued p) = Suc 0" and sub: "promises (suspended p) \<subseteq> set (issued p)"
    and res: "\<And>c. commandResolve p = Some c \<Longrightarrow> issued p = [c]"
    and rej: "\<And>c. commandReject p = Some c \<Longrightarrow> issued p = [c]"
    using assms(1) by (simp_all add: single_command_def)
  have iss: "issued (fst r) = issued p" and sus: "set (suspended (fst r)) \<subseteq> set (suspended p)"
    and res': "\<And>c. commandResolve (fst r) = Some c \<Longrightarrow>
            commandResolve p = Some c \<or> c \<in> promises (suspended p)"
    and rej': "\<And>c. commandReject (fst r) = Some c \<Longrightarrow>
            commandReject p = Some c \<or> c \<in> promises (suspended p)"
    using assms(2) by (simp_all add: step_ok_def)
  have mem: "issued p = [c]" if "c \<in> promises (suspended p)" for c
  proof -
    have "c \<in> set (issued p)" using that sub by blast
    then show ?thesis using len by (rule singleton_member[rotated])
  qed
  have 1: "promises (suspended (fst r)) \<subseteq> set (issued (fst r))"
    using sus sub iss by (auto simp: promises_def)
  have 2: "issued (fst r) = [c]" if "commandResolve (fst r) = Some c" for c
  proof -
    have "commandResolve p = Some c \<or> c \<in> promises (suspended p)" using that by (rule res')
    then have "issued p = [c]" using res mem by blast
    then show ?thesis using iss by simp
  qed
  have 3: "issued (fst r) = [c]" if "commandReject (fst r) = Some c" for c
  proof -
    have "commandReject p = Some c \<or> c \<in> promises (suspended p)" using that by (rule rej')
    then have "issued p = [c]" using rej mem by blast
    then show ?thesis using iss by simp
  qed
  show ?thesis
    unfolding single_command_def using len iss 1 2 3 by simp
qed

lemma sendCommand_new:
  "sendCommand new_RefactorProxy command =
     (new_RefactorProxy\<lparr>initialized := Some 1, process := Some 2, next_id := 3,
         issued := [0], suspended := [(1, command, 0)]\<rparr>, [Spawn 2], 0)"
  by (simp add: sendCommand_def initialize_def new_RefactorProxy_def Let_def numeral_3_eq_3)

lemma single_command_new:
  "single_command (fst (sendCommand new_RefactorProxy command))"
  unfolding sendCommand_new
  by (simp add: single_command_def promises_def new_RefactorProxy_def)

lemma filter_Pair:
  "filter (\<lambda>x. fst x = i) (map (Pair j) effs) = (if i = j then map (Pair j) effs else [])"
  by (induction effs) auto

lemma session_effects_update:
  "session_effects (M\<lparr>sessions := ss, trace := trace M @ map (Pair j) effs\<rparr>) i =
     session_effects M i @ (if i = j then effs else [])"
  by (simp add: session_effects_def filter_Pair comp_def)

lemma session_effects_fresh:
  assumes "\<forall>x \<in> set (trace M). fst x < n" "n \<le> i"
  shows "session_effects M i = []"
proof -
  have "filter (\<lambda>x. fst x = i) (trace M) = []"
    using assms by (auto simp: filter_empty_conv)
  then show ?thesis by (simp add: session_effects_def)
qed

lemma module_inv_add_session:
  assumes "module_inv M"
  shows "module_inv (add_session M (sendCommand new_RefactorProxy command))"
proof -
  let ?n = "length (sessions M)"
  let ?p = "fst (sendCommand new_RefactorProxy command)"
  let ?M = "add_session M (sendCommand new_RefactorProxy command)"
  have M': "?M = M\<lparr>sessions := sessions M @ [?p], trace := trace M @ map (Pair ?n) [Spawn 2]\<rparr>"
    by (simp add: add_session_def sendCommand_new)
  have tr: "\<forall>x \<in> set (trace M). fst x < ?n" using assms by (simp add: module_inv_def)
  have 1: "\<forall>x \<in> set (trace ?M). fst x < length (sessions ?M)"
    using tr unfolding M' by auto
  have 2: "single_command (sessions ?M ! i) \<and>
           writes (session_effects ?M i) + length (suspended (sessions ?M ! i)) \<le> 1"
    if "i < length (sessions ?M)" for i
  proof (cases "i < ?n")
    case True
    then have "sessions ?M ! i = sessions M ! i" unfolding M' by (simp add: nth_append)
    moreover have "session_effects ?M i = session_effects M i"
      using True unfolding M' by (simp add: session_effects_def)
    ultimately show ?thesis using assms True by (simp add: module_inv_def)
  next
    case False
    then have i: "i = ?n" using that unfolding M' by simp
    have s: "sessions ?M ! i = ?p" unfolding M' i by simp
    have "session_effects M ?n = []" using tr by (intro session_effects_fresh) auto
    then have e: "session_effects ?M i = [Spawn 2]"
      unfolding M' i by (simp add: session_effects_def)
    show ?thesis
      unfolding s e using single_command_new[of command]
      by (simp add: sendCommand_new is_write_def)
  qed
  show ?thesis unfolding module_inv_def using 1 2 by blast
qed

lemma module_inv_warnings:
  "module_inv (M\<lparr>warnings := ws\<rparr>) = module_inv M"
  by (simp add: module_inv_def session_effects_def)

lemma module_inv_checks_pass:
  "module_inv M \<Longrightarrow> module_inv (snd (checks_pass rq M))"
  by (simp add: checks_pass_def module_inv_warnings)

lemma module_inv_session_step:
  assumes "module_inv M" "\<And>p. step_ok p (f p)"
  shows "module_inv (session_step M i f)"
proof (cases "i < length (sessions M)")
  case False
  then show ?thesis using assms(1) by (simp add: session_step_def)
next
  case True
  let ?p = "sessions M ! i"
  let ?M = "session_step M i f"
  have M': "?M = M\<lparr>sessions := (sessions M)[i := fst (f ?p)],
                    trace := trace M @ map (Pair i) (snd (f ?p))\<rparr>"
    using True by (simp add: session_step_def split: prod.splits)
  have ok: "step_ok ?p (f ?p)" by (rule assms(2))
  have 1: "\<forall>x \<in> set (trace ?M). fst x < length (sessions ?M)"
    using assms(1) True unfolding M' by (auto simp: module_inv_def)
  have 2: "single_command (sessions ?M ! j) \<and>
           writes (session_effects ?M j) + length (suspended (sessions ?M ! j)) \<le> 1"
    if "j < length (sessions ?M)" for j
  proof (cases "j = i")
    case False
    then have "sessions ?M ! j = sessions M ! j" "session_effects ?M j = session_effects M j"
      unfolding M' by (simp_all add: session_effects_update)
    then show ?thesis using assms(1) that unfolding M' by (simp add: module_inv_def)
  next
    case j: True
    have s: "sessions ?M ! j = fst (f ?p)" using True unfolding M' j by simp
    have e: "session_effects ?M j = session_effects M i @ snd (f ?p)"
      unfolding M' j by (simp add: session_effects_update)
    have old: "single_command ?p" "writes (session_effects M i) + length (suspended ?p) \<le> 1"
      using assms(1) True by (simp_all add: module_inv_def)
    have "writes (snd (f ?p)) + length (suspended (fst (f ?p))) \<le> length (suspended ?p)"
      using ok by (simp add: step_ok_def)
    then show ?thesis
      unfolding s e using old single_command_step[OF old(1) ok] by simp
  qed
  show ?thesis unfolding module_inv_def using 1 2 by blast
qed

lemma module_inv_entry:
  assumes "module_inv M"
  shows "module_inv (case checks_pass rq M of
                       (False, M1) \<Rightarrow> M1
                     | (True, M1) \<Rightarrow> add_session M1 (sendCommand new_RefactorProxy command))"
proof -
  obtain b M1 where cp: "checks_pass rq M = (b, M1)" by (cases "checks_pass rq M") auto
  have inv1: "module_inv M1" using module_inv_checks_pass[OF assms, of rq] cp by simp
  show ?thesis
  proof (cases b)
    case True
    then show ?thesis using cp module_inv_add_session[OF inv1, of command] by simp
  next
    case False
    then show ?thesis using cp inv1 by simp
  qed
qed

lemma module_inv_step:
  assumes "module_inv M"
  shows "module_inv (module_step P M a)"
proof (cases a)
  case (ExtractVariable rq rng)
  show ?thesis
    unfolding ExtractVariable module_step.simps extractVariable_def proxy_extractVariable_def Let_def
    by (rule module_inv_entry[OF assms])
next
  case (ExtractMethod rq rng)
  show ?thesis
    unfolding ExtractMethod module_step.simps extractMethod_def proxy_extractMethod_def Let_def
    by (rule module_inv_entry[OF assms])
next
  case (AddImport rq name parentModule)
  show ?thesis
    unfolding AddImport module_step.simps addImport_def proxy_addImport_def Let_def
    by (rule module_inv_entry[OF assms])
next
  case (Output i src out)
  show ?thesis
    unfolding Output by (simp add: module_inv_session_step[OF assms] step_ok_on_output)
next
  case (Fault i error)
  show ?thesis
    unfolding Fault by (simp add: module_inv_session_step[OF assms] step_ok_handleError)
qed

lemma module_inv_foldl:
  "module_inv M \<Longrightarrow> module_inv (foldl (module_step P) M acts)"
  by (induction acts arbitrary: M) (simp_all add: module_inv_step)

lemma module_inv_run: "module_inv (module_run P acts)"
  unfolding module_run_def
  by (rule module_inv_foldl) (simp add: module_inv_def module_init_def)

text \<open>
  C6. The proxies exist only inside the module, and each exported operation creates a new one
  for its command. So in every state the module can reach, on every session exactly one call
  of \<^verbatim>\<open>sendCommand\<close> was ever made; the resolve and reject functions stored in the session,
  if any, are those of that call; and the commands written to the subprocess, together with
  the calls still waiting for the start, are at most one.
\<close>

theorem one_command_per_session:
  "\<forall>i < length (sessions (module_run P acts)).
     length (issued (sessions (module_run P acts) ! i)) = 1 \<and>
     (\<forall>c. commandResolve (sessions (module_run P acts) ! i) = Some c \<longrightarrow>
          issued (sessions (module_run P acts) ! i) = [c]) \<and>
     (\<forall>c. commandReject (sessions (module_run P acts) ! i) = Some c \<longrightarrow>
          issued (sessions (module_run P acts) ! i) = [c]) \<and>
     writes (session_effects (module_run P acts) i) +
       length (suspended (sessions (module_run P acts) ! i)) \<le> 1"
  using module_inv_run[of P acts]
  by (simp add: module_inv_def single_command_def)

theorem one_command_per_session_witness:
  "length (sessions (module_run example_platform example_actions)) = 2 \<and>
   length (issued (sessions (module_run example_platform example_actions) ! 0)) = 1 \<and>
   writes (session_effects (module_run example_platform example_actions) 0) +
     length (suspended (sessions (module_run example_platform example_actions) ! 0)) \<le> 1"
proof -
  have len: "length (sessions (module_run example_platform example_actions)) = 2"
    by code_simp
  then have "0 < length (sessions (module_run example_platform example_actions))" by simp
  then show ?thesis
    using one_command_per_session[of example_platform example_actions] len by blast
qed

text \<open>The trace of the example: one command written to session 0, none to session 1.\<close>

lemma example_run_trace:
  "trace (module_run example_platform example_actions) =
     [(0, Spawn 2),
      (0, InitResolved 1),
      (0, StdinWrite 2 (JSON_stringify
            (ExtractCommand ''extract_variable'' ''/tmp/a.py'' ''4'' ''9'' ''2'' ''newvariable7'' 4) @ [LF])),
      (1, Spawn 2),
      (1, InitRejected 1 (ThrownString (''Refactor failed. B'' @ [LF] @ ''A'' @ [LF] @ ''B''))),
      (1, CommandRejected 0 (ThrownString (''Refactor failed. B'' @ [LF] @ ''A'' @ [LF] @ ''B''))),
      (0, Kill 2),
      (0, CommandResolved 0 (Some results_x))]"
  by code_simp

text \<open>
  The class itself has no guard: a second call on a proxy that is still starting replaces the
  deferred, and the ready sentinel then resumes the second call only.
\<close>

lemma second_call_on_same_proxy:
  "suspended (fst (sendCommand (starting ''a'') ''b'')) = [(1, ''a'', 0), (4, ''b'', 3)] \<and>
   on_output json_parse (fst (sendCommand (starting ''a'') ''b'')) stdout (''STARTED'' @ [LF]) =
     ((fst (sendCommand (starting ''a'') ''b''))
        \<lparr>startedSuccessfully := True, settled := [4], suspended := [(1, ''a'', 0)],
         commandResolve := Some 3, commandReject := Some 3\<rparr>,
      [InitResolved 4, StdinWrite 5 (''b'' @ [LF])])"
  by code_simp


section \<open>Applying an empty diff\<close>

text \<open>
  C10. When the diff is the empty string, \<^verbatim>\<open>applyImports\<close> and \<^verbatim>\<open>extractName\<close> complete
  without error and leave the editor as it is: no edit is applied, nothing is logged or shown,
  and the cursor is not moved.
\<close>

theorem empty_diff_leaves_document:
  "applyImports C ed (Inr []) = (ed, Inr Undefined) \<and>
   extractName C ed newName (Inr []) = (ed, Inr EmptyArray)"
  by (simp add: applyImports_def applyImports_try_def extractName_def extractName_try_def)


section \<open>Offsets for the extract commands\<close>

lemma getOffsetAt_win32: "getOffsetAt True doc pos = int (offsetAt doc pos)"
  by (simp add: getOffsetAt_def)

lemma getOffsetAt_not_win32:
  "getOffsetAt False doc pos =
     int (offsetAt doc pos) -
     int (count_crlf (take (offsetAt doc pos) (getText doc)))"
  by (simp add: getOffsetAt_def getWindowsLineEndingCount_def Let_def)

lemma count_crlf_no_CR: "CR \<notin> set s \<Longrightarrow> count_crlf s = 0"
  by (induction s rule: count_crlf.induct) auto

lemma getOffsetAt_single_character_endings:
  "CR \<notin> set (getText doc) \<Longrightarrow> getOffsetAt w doc pos = int (offsetAt doc pos)"
proof -
  assume "CR \<notin> set (getText doc)"
  then have "CR \<notin> set (take (offsetAt doc pos) (getText doc))"
    by (meson in_set_takeD)
  then show ?thesis
    by (simp add: getOffsetAt_def getWindowsLineEndingCount_def count_crlf_no_CR)
qed

text \<open>
  C9. \<^verbatim>\<open>getOffsetAt\<close> is the raw offset for a document with single-character line endings
  and the raw offset less the count of two-character line endings before the position
  otherwise. On \<^verbatim>\<open>win32\<close> the code returns the raw offset also for a document with
  two-character line endings: for the text of the lines a and b, ended by CR LF, the start of
  the second line is at 3 where the reduced offset is 2.
\<close>

theorem getOffsetAt_win32_crlf:
  "getOffsetAt True (text_document (''a'' @ [CR, LF] @ ''b'')) (1, 0) = 3 \<and>
   getWindowsLineEndingCount (text_document (''a'' @ [CR, LF] @ ''b'')) 3 = 1 \<and>
   getOffsetAt False (text_document (''a'' @ [CR, LF] @ ''b'')) (1, 0) = 2"
  by code_simp

end
